theory Spec2Isabelle
  imports Complex_Main "HOL-Library.Multiset" "HOL-Library.Log_Nat"
begin

section \<open>Account statements of the milk-supply back office\<close>

text \<open>
  A shallow embedding of \<^verbatim>\<open>src/pages/Statements.tsx\<close> and
  \<^verbatim>\<open>src/components/Customers/CustomerDetailsModal.tsx\<close>.

  Conventions of the embedding:
  \<^item> a JavaScript \<^verbatim>\<open>number\<close> that carries money or a quantity is the \<^typ>\<open>rat\<close> it
    denotes (every finite double is a rational). Comparisons are exact, as in
    JavaScript, and so is what \<^verbatim>\<open>toFixed\<close> reads; additions, subtractions and
    multiplications round to the nearest double (subsection Numbers). \<^verbatim>\<open>NaN\<close> and the
    infinities are outside the model;
  \<^item> a string is a list of bytes; the rupee sign, the only character beyond ASCII in the
    two files, is its three UTF-8 bytes. No UTF-8 sequence contains the byte of the double
    quote, so the quote doubling of the CSV export is the same on bytes as on code units;
  \<^item> a \<^verbatim>\<open>Date\<close> is its time value in milliseconds, None being the invalid date
    (time value \<^verbatim>\<open>NaN\<close>);
  \<^item> the functions of the JavaScript runtime and of the date library that the two files
    call but do not define are the fields of a record \<open>runtime\<close>, passed to every
    function that uses one; the data context of the application (\<^verbatim>\<open>useData()\<close>) is
    the record \<open>data_context\<close>;
  \<^item> an exception is the value None: the only one the two files can raise is the
    \<^verbatim>\<open>RangeError\<close> of \<^verbatim>\<open>format\<close> on an invalid date.
\<close>

subsection \<open>The runtime and the date library\<close>

record runtime =
  Number_toString :: "rat \<Rightarrow> string"
  Date_parse :: "string \<Rightarrow> int option"
  parseISO :: "string \<Rightarrow> int option"
  format :: "int \<Rightarrow> string \<Rightarrow> string"
  startOfMonth :: "int \<Rightarrow> int"
  endOfMonth :: "int \<Rightarrow> int"
  startOfWeek :: "int \<Rightarrow> int"
  endOfWeek :: "int \<Rightarrow> int"

text \<open>
  The fields of the runtime:
  \<^item> \<open>Number_toString\<close> is Number::toString of ECMAScript, the text of a number in a
    template literal and in JSX;
  \<^item> \<open>Date_parse\<close> is the time value of \<^verbatim>\<open>new Date(s)\<close> for a string \<open>s\<close>;
  \<^item> \<open>parseISO\<close> is the time value of \<^verbatim>\<open>parseISO(s)\<close> of the date library;
  \<^item> \<open>format\<close> is \<^verbatim>\<open>format(d, pattern)\<close> of the date library on a valid date \<open>d\<close>;
  \<^item> \<open>startOfMonth\<close>, \<open>endOfMonth\<close>, \<open>startOfWeek\<close> and \<open>endOfWeek\<close> are the
    functions of these names of the date library, which take a valid date to a valid date.

  \<^verbatim>\<open>format(d, pattern)\<close> throws a RangeError on an invalid date and formats every valid
  one (the patterns of the two files are fixed and well formed).
\<close>

definition format_date :: "runtime \<Rightarrow> int option \<Rightarrow> string \<Rightarrow> string option" where
  "format_date rt d pattern = (case d of None \<Rightarrow> None | Some t \<Rightarrow> Some (format rt t pattern))"

text \<open>\<^verbatim>\<open>a.getTime() - b.getTime()\<close>: the difference is \<^verbatim>\<open>NaN\<close> when either date is invalid.\<close>

definition time_diff :: "int option \<Rightarrow> int option \<Rightarrow> int option" where
  "time_diff a b = (case a of None \<Rightarrow> None | Some x \<Rightarrow> (case b of None \<Rightarrow> None | Some y \<Rightarrow> Some (x - y)))"

subsection \<open>Numbers\<close>

text \<open>
  A number is the rational it denotes, and the arithmetic of the two files rounds as
  IEEE 754 binary64 does, to the nearest double with ties to the even significand:
  \<open>exponent a\<close> is the integer \<open>e\<close> with \<open>2^e \<le> a < 2^(e+1)\<close>, for \<open>a > 0\<close>; a
  double of that magnitude is a multiple of \<open>2^(e-52)\<close>, and of \<open>2^(-1074)\<close> at least
  (the subnormal numbers). A sum, a difference or a product is the exact one, rounded.
  Results beyond the largest double, which JavaScript turns into an infinity, are
  outside the model.
\<close>

definition exponent :: "rat \<Rightarrow> int" where
  "exponent a =
     (case quotient_of a of (p, q) \<Rightarrow>
        (let e = bitlen p - bitlen q in if 2 powi e \<le> a then e else e - 1))"

definition round_even :: "rat \<Rightarrow> int" where
  "round_even r =
     (let n = \<lfloor>r\<rfloor>; d = r - of_int n
      in if d < 1 / 2 then n else if 1 / 2 < d then n + 1 else if even n then n else n + 1)"

definition to_double :: "rat \<Rightarrow> rat" where
  "to_double x =
     (if x = 0 then 0
      else (let q = 2 powi (max (exponent \<bar>x\<bar>) (- 1022) - 52)
            in of_int (round_even (x / q)) * q))"

text \<open>The operators \<^verbatim>\<open>+\<close>, \<^verbatim>\<open>-\<close> and \<^verbatim>\<open>*\<close> of JavaScript on numbers.\<close>

definition Number_add :: "rat \<Rightarrow> rat \<Rightarrow> rat" where
  "Number_add x y = to_double (x + y)"

definition Number_subtract :: "rat \<Rightarrow> rat \<Rightarrow> rat" where
  "Number_subtract x y = to_double (x - y)"

definition Number_multiply :: "rat \<Rightarrow> rat \<Rightarrow> rat" where
  "Number_multiply x y = to_double (x * y)"

subsection \<open>Number.prototype.toFixed\<close>

definition rupee :: string where
  "rupee = [CHR 0xE2, CHR 0x82, CHR 0xB9]"

text \<open>The decimal digits of an integer that is not negative.\<close>

definition digit :: "int \<Rightarrow> char" where
  "digit d = ''0123456789'' ! nat d"

function digits :: "int \<Rightarrow> string" where
  "digits n = (if n < 10 then [digit n] else digits (n div 10) @ [digit (n mod 10)])"
  by pat_completeness auto
termination
  by (relation "measure nat") auto

declare digits.simps [simp del]

text \<open>
  ECMAScript, Number.prototype.toFixed(f), on a finite number \<open>x\<close>: the sign is split
  off; a magnitude of at least \<open>10^21\<close> is printed by Number::toString; otherwise \<open>n\<close> is
  the integer closest to \<open>x * 10^f\<close> (the larger one of two), printed in decimal, padded
  with zeros on the left to \<open>f + 1\<close> digits, with the point before the last \<open>f\<close> digits.
\<close>

definition toFixed :: "runtime \<Rightarrow> rat \<Rightarrow> nat \<Rightarrow> string" where
  "toFixed rt x0 f =
     (let s = (if x0 < 0 then ''-'' else '''');
          x = (if x0 < 0 then - x0 else x0)
      in if 10 ^ 21 \<le> x then s @ Number_toString rt x
         else
           (let n = \<lfloor>x * 10 ^ f + 1 / 2\<rfloor>;
                m0 = digits n;
                m = (if f \<noteq> 0 \<and> length m0 \<le> f
                     then replicate (f + 1 - length m0) (CHR ''0'') @ m0 else m0);
                k = length m
            in s @ (if f \<noteq> 0 then take (k - f) m @ ''.'' @ drop (k - f) m else m)))"

text \<open>Array.prototype.join.\<close>

fun join :: "string \<Rightarrow> string list \<Rightarrow> string" where
  "join sep [] = ''''"
| "join sep [x] = x"
| "join sep (x # y # ys) = x @ sep @ join sep (y # ys)"

subsection \<open>Array.prototype.sort\<close>

text \<open>
  ECMAScript: a comparator result of \<^verbatim>\<open>NaN\<close> counts as \<open>+0\<close>; the sort is stable.
  With a consistent comparator every stable sort returns the same array, here computed
  by insertion from the right; with an inconsistent one (it arises only from invalid
  dates) the standard leaves the order to the engine, and the model is one such engine.
\<close>

definition SortCompare :: "('a \<Rightarrow> 'a \<Rightarrow> int option) \<Rightarrow> 'a \<Rightarrow> 'a \<Rightarrow> int" where
  "SortCompare comparefn x y = (case comparefn x y of None \<Rightarrow> 0 | Some v \<Rightarrow> v)"

fun insert_by :: "('a \<Rightarrow> 'a \<Rightarrow> int option) \<Rightarrow> 'a \<Rightarrow> 'a list \<Rightarrow> 'a list" where
  "insert_by comparefn x [] = [x]"
| "insert_by comparefn x (y # ys) =
     (if SortCompare comparefn x y \<le> 0 then x # y # ys else y # insert_by comparefn x ys)"

definition Array_sort :: "('a \<Rightarrow> 'a \<Rightarrow> int option) \<Rightarrow> 'a list \<Rightarrow> 'a list" where
  "Array_sort comparefn xs = foldr (insert_by comparefn) xs []"

subsection \<open>The data model\<close>

text \<open>
  Modelled from the spec: the records \<^verbatim>\<open>Customer\<close>, \<^verbatim>\<open>Order\<close> (with its line items) and
  \<^verbatim>\<open>Payment\<close> of \<^verbatim>\<open>../types\<close>, which the two files import and do not declare. The
  fields are the ones the two files read, with the types the spec gives them: dates are
  strings, amounts, prices and quantities are numbers. A field name that several records
  share keeps its name in one of them and carries the name of its record in the others
  (\<open>order_customerName\<close>, \<open>payment_customerName\<close>, \<open>customer_totalAmount\<close>), and
  \<^verbatim>\<open>id\<close> is \<open>order_id\<close> and \<open>customer_id\<close>. The customer of a payment
  (\<open>payment_customerId\<close>) is read by the data context only.
\<close>

record item =
  productName :: string
  price :: rat
  quantity :: rat

record order =
  order_id :: string
  customerId :: string
  order_customerName :: string
  orderDate :: string
  status :: string
  items :: "item list"
  totalAmount :: rat

record payment =
  paymentDate :: string
  amount :: rat
  payment_customerName :: string
  payment_customerId :: string

record customer =
  customer_id :: string
  name :: string
  phone :: string
  address :: string
  customer_totalAmount :: rat
  paidAmount :: rat
  pendingBalance :: rat

text \<open>
  Modelled from the spec: the value of \<^verbatim>\<open>useData()\<close>, of which the two files read the
  customers, the orders and the two queries; the parameter of a query is the object that
  \<^verbatim>\<open>Statements\<close> builds (record \<open>filter_params\<close>, where None is \<^verbatim>\<open>undefined\<close>). The
  queries are parameters of the model: nothing is assumed about what they return.
\<close>

record filter_params =
  fp_customer :: "string option"
  fp_dateFrom :: string
  fp_dateTo :: string

record data_context =
  customers :: "customer list"
  orders :: "order list"
  getFilteredOrders :: "filter_params \<Rightarrow> order list"
  getFilteredPayments :: "filter_params \<Rightarrow> payment list"

text \<open>The interface \<^verbatim>\<open>Transaction\<close> and the state \<^verbatim>\<open>filters\<close> of \<^verbatim>\<open>Statements.tsx\<close>.\<close>

datatype transaction_type = Order | Payment

record transaction =
  date :: string
  type :: transaction_type
  description :: string
  billed :: rat
  paid :: rat
  customerName :: string

record filters =
  customer :: string
  dateFrom :: string
  dateTo :: string
  period :: string

subsection \<open>Statements: the transactions of a filter window\<close>

text \<open>\<^verbatim>\<open>customer: filters.customer || undefined\<close>: the empty string is falsy.\<close>

definition filterParams :: "filters \<Rightarrow> filter_params" where
  "filterParams f =
     \<lparr>fp_customer = (if customer f = '''' then None else Some (customer f)),
      fp_dateFrom = dateFrom f, fp_dateTo = dateTo f\<rparr>"

definition order_transaction :: "runtime \<Rightarrow> order \<Rightarrow> transaction" where
  "order_transaction rt ord =
     \<lparr>date = orderDate ord,
      type = Order,
      description = ''Order: '' @
        join '', '' (map (\<lambda>i. Number_toString rt (quantity i) @ ''x '' @ productName i) (items ord)),
      billed = totalAmount ord,
      paid = 0,
      customerName = order_customerName ord\<rparr>"

definition payment_transaction :: "payment \<Rightarrow> transaction" where
  "payment_transaction pay =
     \<lparr>date = paymentDate pay,
      type = Payment,
      description = ''Payment received'',
      billed = 0,
      paid = amount pay,
      customerName = payment_customerName pay\<rparr>"

definition combined :: "runtime \<Rightarrow> data_context \<Rightarrow> filters \<Rightarrow> transaction list" where
  "combined rt ctx f =
     map (order_transaction rt) (getFilteredOrders ctx (filterParams f)) @
     map payment_transaction (getFilteredPayments ctx (filterParams f))"

definition by_date :: "runtime \<Rightarrow> transaction \<Rightarrow> transaction \<Rightarrow> int option" where
  "by_date rt a b = time_diff (parseISO rt (date a)) (parseISO rt (date b))"

definition transactions :: "runtime \<Rightarrow> data_context \<Rightarrow> filters \<Rightarrow> transaction list" where
  "transactions rt ctx f = Array_sort (by_date rt) (combined rt ctx f)"

definition totalBilled :: "runtime \<Rightarrow> data_context \<Rightarrow> filters \<Rightarrow> rat" where
  "totalBilled rt ctx f = foldl (\<lambda>sum tx. Number_add sum (billed tx)) 0 (transactions rt ctx f)"

definition totalPaid :: "runtime \<Rightarrow> data_context \<Rightarrow> filters \<Rightarrow> rat" where
  "totalPaid rt ctx f = foldl (\<lambda>sum tx. Number_add sum (paid tx)) 0 (transactions rt ctx f)"

subsection \<open>Statements: the filter state\<close>

text \<open>The initial state of the page; \<open>today\<close> is \<^verbatim>\<open>new Date()\<close>, always a valid date.\<close>

definition initial_filters :: "runtime \<Rightarrow> int \<Rightarrow> filters" where
  "initial_filters rt today =
     \<lparr>customer = '''',
      dateFrom = format rt (startOfMonth rt today) ''yyyy-MM-dd'',
      dateTo = format rt (endOfMonth rt today) ''yyyy-MM-dd'',
      period = ''month''\<rparr>"

definition handlePeriodChange :: "runtime \<Rightarrow> int \<Rightarrow> filters \<Rightarrow> string \<Rightarrow> filters" where
  "handlePeriodChange rt today f p =
     (if p = ''today'' then
        f\<lparr>period := p, dateFrom := format rt today ''yyyy-MM-dd'',
          dateTo := format rt today ''yyyy-MM-dd''\<rparr>
      else if p = ''week'' then
        f\<lparr>period := p, dateFrom := format rt (startOfWeek rt today) ''yyyy-MM-dd'',
          dateTo := format rt (endOfWeek rt today) ''yyyy-MM-dd''\<rparr>
      else if p = ''month'' then
        f\<lparr>period := p, dateFrom := format rt (startOfMonth rt today) ''yyyy-MM-dd'',
          dateTo := format rt (endOfMonth rt today) ''yyyy-MM-dd''\<rparr>
      else
        f\<lparr>period := p, dateFrom := dateFrom f, dateTo := dateTo f\<rparr>)"

text \<open>The \<^verbatim>\<open>onChange\<close> handlers of the two date inputs and of the customer select.\<close>

definition onChange_dateFrom :: "filters \<Rightarrow> string \<Rightarrow> filters" where
  "onChange_dateFrom f v = f\<lparr>dateFrom := v, period := ''custom''\<rparr>"

definition onChange_dateTo :: "filters \<Rightarrow> string \<Rightarrow> filters" where
  "onChange_dateTo f v = f\<lparr>dateTo := v, period := ''custom''\<rparr>"

definition onChange_customer :: "filters \<Rightarrow> string \<Rightarrow> filters" where
  "onChange_customer f v = f\<lparr>customer := v\<rparr>"

subsection \<open>Statements: the PDF document\<close>

text \<open>
  What \<^verbatim>\<open>generatePDF\<close> writes: the text lines before the table, the head and the body
  given to \<^verbatim>\<open>autoTable\<close>, the columns it aligns to the right, the text lines after the
  table, and the name of the saved file. Font sizes and positions are left out.
\<close>

record pdf_document =
  pdf_header :: "string list"
  pdf_head :: "string list list"
  pdf_body :: "string list list"
  pdf_right_aligned :: "nat list"
  pdf_footer :: "string list"
  pdf_file :: string

text \<open>\<^verbatim>\<open>customer?.name || 'All Customers'\<close>, of \<^verbatim>\<open>customers.find(c => c.id === filters.customer)\<close>.\<close>

definition customer_label :: "data_context \<Rightarrow> filters \<Rightarrow> string" where
  "customer_label ctx f =
     (case find (\<lambda>c. customer_id c = customer f) (customers ctx) of
        None \<Rightarrow> ''All Customers''
      | Some c \<Rightarrow> (if name c = '''' then ''All Customers'' else name c))"

definition pdf_row :: "runtime \<Rightarrow> bool \<Rightarrow> transaction \<Rightarrow> string list option" where
  "pdf_row rt includeCustomerName tx =
     (case format_date rt (Date_parse rt (date tx)) ''dd/MM/yyyy'' of
        None \<Rightarrow> None
      | Some d \<Rightarrow>
          Some ([d] @ (if includeCustomerName then [customerName tx] else []) @
            [description tx,
             if 0 < billed tx then rupee @ toFixed rt (billed tx) 2 else ''-'',
             if 0 < paid tx then rupee @ toFixed rt (paid tx) 2 else ''-'']))"

definition generatePDF :: "runtime \<Rightarrow> data_context \<Rightarrow> filters \<Rightarrow> pdf_document option" where
  "generatePDF rt ctx f =
     (let includeCustomerName = (customer f = '''') in
      case format_date rt (parseISO rt (dateFrom f)) ''MMM dd, yyyy'' of
        None \<Rightarrow> None
      | Some from \<Rightarrow>
     (case format_date rt (parseISO rt (dateTo f)) ''MMM dd, yyyy'' of
        None \<Rightarrow> None
      | Some to \<Rightarrow>
     (case those (map (pdf_row rt includeCustomerName) (transactions rt ctx f)) of
        None \<Rightarrow> None
      | Some tableData \<Rightarrow>
          Some \<lparr>pdf_header =
                  [''Jay Goga Milk Supplier'', ''Account Statement'',
                   ''Period: '' @ from @ '' to '' @ to] @
                  (if customer f \<noteq> '''' then [''Customer: '' @ customer_label ctx f] else []),
                pdf_head =
                  [[''Date''] @ (if includeCustomerName then [''Customer''] else []) @
                   [''Description'', ''Billed'', ''Paid'']],
                pdf_body = tableData,
                pdf_right_aligned =
                  [if includeCustomerName then 3 else 2, if includeCustomerName then 4 else 3],
                pdf_footer =
                  [''Total Amount: '' @ rupee @ toFixed rt (totalBilled rt ctx f) 2,
                   ''Received Amount: '' @ rupee @ toFixed rt (totalPaid rt ctx f) 2,
                   ''Pending Amount: '' @ rupee @
                     toFixed rt (Number_subtract (totalBilled rt ctx f) (totalPaid rt ctx f)) 2],
                pdf_file =
                  ''account-statement-'' @ dateFrom f @ ''-to-'' @ dateTo f @ ''.pdf''\<rparr>)))"

subsection \<open>Statements: the CSV file\<close>


definition csv_row :: "runtime \<Rightarrow> bool \<Rightarrow> transaction \<Rightarrow> string list option" where
  "csv_row rt includeCustomerName tx =
     (case format_date rt (Date_parse rt (date tx)) ''yyyy-MM-dd'' of
        None \<Rightarrow> None
      | Some d \<Rightarrow>
          Some ([d] @ (if includeCustomerName then [customerName tx] else []) @
            [description tx, toFixed rt (billed tx) 2, toFixed rt (paid tx) 2]))"

definition csv_headers :: "filters \<Rightarrow> string list" where
  "csv_headers f =
     [''Date''] @ (if customer f = '''' then [''Customer''] else []) @
     [''Description'', ''Billed'', ''Paid'']"

definition totalRow :: "runtime \<Rightarrow> data_context \<Rightarrow> filters \<Rightarrow> string list" where
  "totalRow rt ctx f =
     [''''] @ (if customer f = '''' then [''''] else []) @
     [''Total'', toFixed rt (totalBilled rt ctx f) 2, toFixed rt (totalPaid rt ctx f) 2]"

text \<open>The array \<^verbatim>\<open>[headers, ...csvData, [], totalRow]\<close>.\<close>

definition csv_table :: "runtime \<Rightarrow> data_context \<Rightarrow> filters \<Rightarrow> string list list option" where
  "csv_table rt ctx f =
     (case those (map (csv_row rt (customer f = '''')) (transactions rt ctx f)) of
        None \<Rightarrow> None
      | Some csvData \<Rightarrow> Some ([csv_headers f] @ csvData @ [[]] @ [totalRow rt ctx f]))"



subsection \<open>Statements: the page\<close>

datatype table_view =
  EmptyState string string
| TransactionTable "string list" "string list list"

record page =
  card_total :: string
  card_received :: string
  card_pending :: string
  table_part :: table_view

definition table_head :: "filters \<Rightarrow> string list" where
  "table_head f =
     [''Date''] @ (if customer f = '''' then [''Customer''] else []) @
     [''Description'', ''Billed'', ''Paid'']"

definition table_row :: "runtime \<Rightarrow> filters \<Rightarrow> transaction \<Rightarrow> string list option" where
  "table_row rt f tx =
     (case format_date rt (Date_parse rt (date tx)) ''MMM dd, yyyy'' of
        None \<Rightarrow> None
      | Some d \<Rightarrow>
          Some ([d] @ (if customer f = '''' then [customerName tx] else []) @
            [description tx,
             if 0 < billed tx then rupee @ toFixed rt (billed tx) 2 else ''-'',
             if 0 < paid tx then rupee @ toFixed rt (paid tx) 2 else ''-'']))"

definition Statements :: "runtime \<Rightarrow> data_context \<Rightarrow> filters \<Rightarrow> page option" where
  "Statements rt ctx f =
     (case (if length (transactions rt ctx f) = 0
            then Some (EmptyState ''No transactions found''
                         ''Try adjusting your filters to see results'')
            else map_option (TransactionTable (table_head f))
                   (those (map (table_row rt f) (transactions rt ctx f)))) of
        None \<Rightarrow> None
      | Some t \<Rightarrow>
          Some \<lparr>card_total = rupee @ toFixed rt (totalBilled rt ctx f) 2,
                card_received = rupee @ toFixed rt (totalPaid rt ctx f) 2,
                card_pending =
                  rupee @ toFixed rt (Number_subtract (totalBilled rt ctx f) (totalPaid rt ctx f)) 2,
                table_part = t\<rparr>)"

subsection \<open>CustomerDetailsModal: the order history\<close>

definition by_orderDate_desc :: "runtime \<Rightarrow> order \<Rightarrow> order \<Rightarrow> int option" where
  "by_orderDate_desc rt a b = time_diff (parseISO rt (orderDate b)) (parseISO rt (orderDate a))"

definition customerOrders :: "runtime \<Rightarrow> data_context \<Rightarrow> customer \<Rightarrow> order list" where
  "customerOrders rt ctx c =
     Array_sort (by_orderDate_desc rt)
       (filter (\<lambda>ord. customerId ord = customer_id c) (orders ctx))"

text \<open>One card of the history: its title, the status badge, one line per item (the
  label and the line total), and the order total.\<close>

record order_card =
  card_title :: string
  card_status :: string
  card_items :: "(string \<times> string) list"
  card_order_total :: string

definition item_line :: "runtime \<Rightarrow> item \<Rightarrow> string \<times> string" where
  "item_line rt i =
     (Number_toString rt (quantity i) @ ''x '' @ productName i @ '' '' @
        ''(@ '' @ rupee @ toFixed rt (price i) 2 @ '')'',
      rupee @ toFixed rt (Number_multiply (price i) (quantity i)) 2)"

definition order_card_of :: "runtime \<Rightarrow> order \<Rightarrow> order_card option" where
  "order_card_of rt ord =
     (case format_date rt (parseISO rt (orderDate ord)) ''MMM dd, yyyy'' of
        None \<Rightarrow> None
      | Some d \<Rightarrow>
          Some \<lparr>card_title = ''Order on '' @ d,
                card_status = status ord,
                card_items = map (item_line rt) (items ord),
                card_order_total = ''Order Total: '' @ rupee @ toFixed rt (totalAmount ord) 2\<rparr>)"

datatype history_view =
  NoOrders string
| OrderHistory "order_card list"

definition order_history :: "runtime \<Rightarrow> data_context \<Rightarrow> customer \<Rightarrow> history_view option" where
  "order_history rt ctx c =
     (if 0 < length (customerOrders rt ctx c)
      then map_option OrderHistory (those (map (order_card_of rt) (customerOrders rt ctx c)))
      else Some (NoOrders ''No orders placed by this customer yet.''))"

subsection \<open>Reading the rendered rows\<close>

text \<open>The Billed and the Paid cell of a row of the table, of the PDF body or of the CSV
  file are its last two cells.\<close>

definition billed_cell :: "string list \<Rightarrow> string" where
  "billed_cell row = row ! (length row - 2)"

definition paid_cell :: "string list \<Rightarrow> string" where
  "paid_cell row = row ! (length row - 1)"

definition is_digit :: "char \<Rightarrow> bool" where
  "is_digit c = (c \<in> set ''0123456789'')"

text \<open>A text with exactly two decimal places: an optional minus sign, one decimal digit
  or more, the point, two decimal digits.\<close>

definition two_decimals :: "string \<Rightarrow> bool" where
  "two_decimals s =
     (let body = (if take 1 s = ''-'' then drop 1 s else s); k = length body
      in 4 \<le> k \<and> list_all is_digit (take (k - 3) body) \<and> body ! (k - 3) = CHR ''.'' \<and>
         list_all is_digit (drop (k - 2) body))"

text \<open>The number that a text of decimal digits denotes.\<close>

definition digit_value :: "char \<Rightarrow> int" where
  "digit_value c = int (of_char c) - 48"

definition decimal_value :: "string \<Rightarrow> int" where
  "decimal_value s = foldl (\<lambda>a c. 10 * a + digit_value c) 0 s"

subsection \<open>A reader for files of quoted fields\<close>





subsection \<open>A runtime and a data context for concrete evaluations\<close>

text \<open>
  The runtime of the examples is defined on what the examples use: Number::toString on
  integers and halves of integers of magnitude below \<open>10^21\<close> and on \<open>10^21\<close> itself
  (which JavaScript prints as \<^verbatim>\<open>1e+21\<close>), four dates of January 2024 read in the time
  zone UTC, the three patterns of the two files, and the week and the month of 10 January
  2024. The data context holds the records of one window and selects them by customer.
\<close>

definition sample_Number_toString :: "rat \<Rightarrow> string" where
  "sample_Number_toString q =
     (if q = 10 ^ 21 then ''1e+21''
      else (if q < 0 then ''-'' else '''') @ digits \<lfloor>\<bar>q\<bar>\<rfloor> @
        (if of_int \<lfloor>q\<rfloor> = q then '''' else ''.5''))"

definition sample_parse :: "string \<Rightarrow> int option" where
  "sample_parse =
     map_of [(''2024-01-01'', 1704067200000), (''2024-01-05'', 1704412800000),
             (''2024-01-10'', 1704844800000), (''2024-01-31'', 1706659200000)]"

definition sample_day :: "int \<Rightarrow> string" where
  "sample_day t =
     (if t < 1704412800000 then ''01''
      else if t < 1704844800000 then ''05''
      else if t < 1706659200000 then ''10''
      else ''31'')"

definition sample_format :: "int \<Rightarrow> string \<Rightarrow> string" where
  "sample_format t pattern =
     (if pattern = ''yyyy-MM-dd'' then ''2024-01-'' @ sample_day t
      else if pattern = ''dd/MM/yyyy'' then sample_day t @ ''/01/2024''
      else ''Jan '' @ sample_day t @ '', 2024'')"

definition sample_runtime :: runtime where
  "sample_runtime =
     \<lparr>Number_toString = sample_Number_toString,
      Date_parse = sample_parse,
      parseISO = sample_parse,
      format = sample_format,
      startOfMonth = (\<lambda>t. 1704067200000),
      endOfMonth = (\<lambda>t. 1706745599999),
      startOfWeek = (\<lambda>t. 1704585600000),
      endOfWeek = (\<lambda>t. 1705190399999)\<rparr>"

definition sample_orders :: "order list" where
  "sample_orders =
     [\<lparr>order_id = ''o1'', customerId = ''c1'', order_customerName = ''Asha'',
       orderDate = ''2024-01-10'', status = ''delivered'',
       items = [\<lparr>productName = ''Milk'', price = 50, quantity = 2\<rparr>], totalAmount = 100\<rparr>,
      \<lparr>order_id = ''o2'', customerId = ''c2'', order_customerName = ''Ravi'',
       orderDate = ''2024-01-05'', status = ''pending'',
       items = [\<lparr>productName = ''Ghee'', price = 40, quantity = 1\<rparr>,
                \<lparr>productName = ''Curd'', price = 51 / 2, quantity = 3\<rparr>],
       totalAmount = 233 / 2\<rparr>,
      \<lparr>order_id = ''o3'', customerId = ''c1'', order_customerName = ''Asha'',
       orderDate = ''2024-01-31'', status = ''pending'',
       items = [], totalAmount = 0\<rparr>]"

definition sample_payments :: "payment list" where
  "sample_payments =
     [\<lparr>paymentDate = ''2024-01-10'', amount = 60, payment_customerName = ''Asha'',
       payment_customerId = ''c1''\<rparr>,
      \<lparr>paymentDate = ''2024-01-05'', amount = 150, payment_customerName = ''Ravi'',
       payment_customerId = ''c2''\<rparr>]"

definition sample_context :: data_context where
  "sample_context =
     \<lparr>customers =
        [\<lparr>customer_id = ''c1'', name = ''Asha'', phone = ''1'', address = ''A'',
          customer_totalAmount = 100, paidAmount = 60, pendingBalance = 40\<rparr>,
         \<lparr>customer_id = ''c2'', name = ''Ravi'', phone = ''2'', address = ''B'',
          customer_totalAmount = 233 / 2, paidAmount = 150, pendingBalance = - 67 / 2\<rparr>],
      orders = sample_orders,
      getFilteredOrders = (\<lambda>fp. filter (\<lambda>ord. case fp_customer fp of None \<Rightarrow> True
                                | Some c \<Rightarrow> customerId ord = c) sample_orders),
      getFilteredPayments = (\<lambda>fp. filter (\<lambda>pay. case fp_customer fp of None \<Rightarrow> True
                                | Some c \<Rightarrow> payment_customerId pay = c) sample_payments)\<rparr>"

definition sample_filters :: filters where
  "sample_filters =
     \<lparr>customer = '''', dateFrom = ''2024-01-01'', dateTo = ''2024-01-31'', period = ''month''\<rparr>"

text \<open>A window with one order of \<open>10^21\<close> rupees and no payment.\<close>

definition large_order :: order where
  "large_order =
     \<lparr>order_id = ''o9'', customerId = ''c1'', order_customerName = ''Asha'',
      orderDate = ''2024-01-10'', status = ''pending'', items = [], totalAmount = 10 ^ 21\<rparr>"

definition large_context :: data_context where
  "large_context =
     \<lparr>customers = [], orders = [large_order],
      getFilteredOrders = (\<lambda>fp. [large_order]),
      getFilteredPayments = (\<lambda>fp. [])\<rparr>"

text \<open>The filter state after the customer \<open>c2\<close> has been selected.\<close>

definition pinned_filters :: filters where
  "pinned_filters = onChange_customer sample_filters ''c2''"

text \<open>The filter state after a customer with no order and no payment has been selected.\<close>

definition empty_filters :: filters where
  "empty_filters = onChange_customer sample_filters ''c3''"

text \<open>The filter state after the customer \<open>c2\<close> has been selected and the date input
  From Date has been cleared.\<close>

definition cleared_filters :: filters where
  "cleared_filters = onChange_dateFrom pinned_filters ''''"

text \<open>
  A window with the orders of 10.025 and of 10 rupees (the number literal \<^verbatim>\<open>10.025\<close> is
  the double nearest to it), and a window with three orders of 0.1, 0.2 and 0.3 rupees
  that the data context returns in another order than the order of their dates.
\<close>

definition rounding_orders :: "order list" where
  "rounding_orders =
     [\<lparr>order_id = ''r1'', customerId = ''c1'', order_customerName = ''Asha'',
       orderDate = ''2024-01-05'', status = ''delivered'', items = [],
       totalAmount = to_double (10025 / 1000)\<rparr>,
      \<lparr>order_id = ''r2'', customerId = ''c1'', order_customerName = ''Asha'',
       orderDate = ''2024-01-10'', status = ''delivered'', items = [], totalAmount = 10\<rparr>]"

definition rounding_context :: data_context where
  "rounding_context =
     \<lparr>customers = [], orders = rounding_orders,
      getFilteredOrders = (\<lambda>fp. rounding_orders),
      getFilteredPayments = (\<lambda>fp. [])\<rparr>"

definition drift_orders :: "order list" where
  "drift_orders =
     [\<lparr>order_id = ''d1'', customerId = ''c1'', order_customerName = ''Asha'',
       orderDate = ''2024-01-10'', status = ''delivered'', items = [],
       totalAmount = to_double (1 / 10)\<rparr>,
      \<lparr>order_id = ''d2'', customerId = ''c1'', order_customerName = ''Asha'',
       orderDate = ''2024-01-01'', status = ''delivered'', items = [],
       totalAmount = to_double (2 / 10)\<rparr>,
      \<lparr>order_id = ''d3'', customerId = ''c1'', order_customerName = ''Asha'',
       orderDate = ''2024-01-05'', status = ''delivered'', items = [],
       totalAmount = to_double (3 / 10)\<rparr>]"

definition drift_context :: data_context where
  "drift_context =
     \<lparr>customers = [], orders = drift_orders,
      getFilteredOrders = (\<lambda>fp. drift_orders),
      getFilteredPayments = (\<lambda>fp. [])\<rparr>"

text \<open>
  The data context of the examples with one more order of the customer \<open>c2\<close>: a
  kilogram and a half of paneer at 10.31 rupees the kilogram.
\<close>

definition history_orders :: "order list" where
  "history_orders =
     sample_orders @
     [\<lparr>order_id = ''o4'', customerId = ''c2'', order_customerName = ''Ravi'',
       orderDate = ''2024-01-10'', status = ''delivered'',
       items = [\<lparr>productName = ''Paneer'', price = to_double (1031 / 100), quantity = 3 / 2\<rparr>],
       totalAmount = Number_multiply (to_double (1031 / 100)) (3 / 2)\<rparr>]"

definition history_context :: data_context where
  "history_context = sample_context\<lparr>orders := history_orders\<rparr>"

section \<open>Properties\<close>

subsection \<open>Doubles\<close>

text \<open>
  The doubles are the numbers \<open>m * 2^k\<close> with \<open>\<bar>m\<bar> < 2^53\<close> and \<open>k \<ge> -1074\<close>: rounding
  leaves them as they are, and rounds every number to one of them.
\<close>

lemma bitlen_powi:
  assumes "0 < n"
  shows "(2::rat) powi (bitlen n - 1) \<le> of_int n" and "of_int n < (2::rat) powi bitlen n"
proof -
  from bitlen_bounds [OF assms] have lo: "2 ^ nat (bitlen n - 1) \<le> n"
    and hi: "n < 2 ^ nat (bitlen n)"
    by simp_all
  have pos: "1 \<le> bitlen n"
    using assms bitlen_eq_zero_iff [of n] bitlen_nonneg [of n] by linarith
  have "(2::rat) powi (bitlen n - 1) = of_int (2 ^ nat (bitlen n - 1))"
    using pos by (simp add: power_int_nonneg_exp)
  also have "\<dots> \<le> of_int n"
    using lo by (simp only: of_int_le_iff)
  finally show "(2::rat) powi (bitlen n - 1) \<le> of_int n" .
  have "(of_int n :: rat) < of_int (2 ^ nat (bitlen n))"
    using hi by (simp only: of_int_less_iff)
  also have "\<dots> = (2::rat) powi bitlen n"
    using pos by (simp add: power_int_nonneg_exp)
  finally show "of_int n < (2::rat) powi bitlen n" .
qed

lemma exponent_bounds:
  assumes "0 < a"
  shows "2 powi exponent a \<le> a" and "a < 2 powi (exponent a + 1)"
proof -
  obtain p q where pq: "quotient_of a = (p, q)"
    by (cases "quotient_of a")
  have q: "0 < q"
    using pq by (rule quotient_of_denom_pos)
  have a: "a = of_int p / of_int q"
    using pq by (rule quotient_of_div)
  have p: "0 < p"
    using assms q by (simp add: a zero_less_divide_iff)
  define e where "e = bitlen p - bitlen q"
  have Q: "(0::rat) < of_int q"
    using q by simp
  have "a < 2 powi bitlen p / 2 powi (bitlen q - 1)"
    unfolding a using bitlen_powi [OF p] bitlen_powi [OF q] Q p
    by (intro frac_less) simp_all
  also have "\<dots> = 2 powi (bitlen p - (bitlen q - 1))"
    by (simp flip: power_int_diff)
  also have "bitlen p - (bitlen q - 1) = e + 1"
    by (simp add: e_def)
  finally have hi: "a < 2 powi (e + 1)" .
  have "2 powi (bitlen p - 1) / 2 powi bitlen q \<le> a"
    unfolding a using bitlen_powi [OF p] bitlen_powi [OF q] Q p
    by (intro frac_le) simp_all
  moreover have "(2::rat) powi (bitlen p - 1) / 2 powi bitlen q =
      2 powi (bitlen p - 1 - bitlen q)"
    by (simp flip: power_int_diff)
  moreover have "bitlen p - 1 - bitlen q = e - 1"
    by (simp add: e_def)
  ultimately have lo: "2 powi (e - 1) \<le> a"
    by simp
  have ex: "exponent a = (if 2 powi e \<le> a then e else e - 1)"
    by (simp add: exponent_def pq e_def Let_def)
  show "2 powi exponent a \<le> a"
    using lo by (simp add: ex)
  show "a < 2 powi (exponent a + 1)"
    using hi by (auto simp: ex not_le)
qed

lemma round_even_of_int: "round_even (of_int n) = n"
  by (simp add: round_even_def)

lemma round_even_between: "\<lfloor>r\<rfloor> \<le> round_even r \<and> round_even r \<le> \<lceil>r\<rceil>"
proof -
  have "r - of_int \<lfloor>r\<rfloor> \<noteq> 0 \<Longrightarrow> \<lceil>r\<rceil> = \<lfloor>r\<rfloor> + 1"
    by (metis ceiling_altdef diff_eq_eq add.commute add.right_neutral)
  then show ?thesis
    by (auto simp: round_even_def Let_def)
qed

lemma round_even_abs_le:
  assumes "\<bar>r\<bar> < of_int B"
  shows "\<bar>round_even r\<bar> \<le> B"
proof -
  have "- of_int B < r" "r < of_int B"
    using assms by (simp_all add: abs_less_iff)
  then have "- B \<le> \<lfloor>r\<rfloor>" "\<lceil>r\<rceil> \<le> B"
    by (simp_all add: le_floor_iff ceiling_le_iff)
  with round_even_between [of r] show ?thesis
    by linarith
qed

lemma powi_exp_less:
  assumes "(2::rat) powi e < 2 powi n"
  shows "e < n"
proof (rule ccontr)
  assume "\<not> e < n"
  then have "(2::rat) powi n \<le> 2 powi e"
    by (intro power_int_increasing) simp_all
  with assms show False
    by simp
qed

lemma to_double_fixed:
  assumes y: "y = of_int m * 2 powi k" and m: "\<bar>m\<bar> < 2 ^ 53" and k: "- 1074 \<le> k"
  shows "to_double y = y"
proof (cases "m = 0")
  case True
  then show ?thesis
    by (simp add: y to_double_def)
next
  case False
  have y0: "y \<noteq> 0"
    using False by (simp add: y)
  have a: "\<bar>y\<bar> = of_int \<bar>m\<bar> * 2 powi k"
    by (simp add: y abs_mult)
  have pos: "0 < \<bar>y\<bar>"
    using y0 by simp
  have "2 powi exponent \<bar>y\<bar> \<le> \<bar>y\<bar>"
    using pos by (rule exponent_bounds)
  also have "\<bar>y\<bar> < 2 ^ 53 * 2 powi k"
    unfolding a using m by (intro mult_strict_right_mono) (simp_all flip: of_int_less_iff)
  also have "(2::rat) ^ 53 * 2 powi k = 2 powi (53 + k)"
    by (simp add: power_int_add)
  finally have "exponent \<bar>y\<bar> < 53 + k"
    by (rule powi_exp_less)
  with k have d: "0 \<le> k - (max (exponent \<bar>y\<bar>) (- 1022) - 52)"
    by simp
  define k' where "k' = max (exponent \<bar>y\<bar>) (- 1022) - 52"
  have split: "(2::rat) powi k = 2 powi (k - k') * 2 powi k'"
    by (simp flip: power_int_add)
  have int: "(2::rat) powi (k - k') = of_int (2 ^ nat (k - k'))"
    using d by (simp add: k'_def power_int_nonneg_exp)
  have "y / 2 powi k' = of_int m * 2 powi (k - k')"
    by (simp add: y split)
  also have "\<dots> = of_int (m * 2 ^ nat (k - k'))"
    by (simp add: int)
  finally have "round_even (y / 2 powi k') = m * 2 ^ nat (k - k')"
    by (simp only: round_even_of_int)
  then have "to_double y = of_int (m * 2 ^ nat (k - k')) * 2 powi k'"
    using y0 by (simp add: to_double_def Let_def k'_def)
  also have "\<dots> = of_int m * (2 powi (k - k') * 2 powi k')"
    by (simp add: int)
  also have "\<dots> = y"
    by (simp add: y flip: split)
  finally show ?thesis .
qed

lemma to_double_range:
  "\<exists>m k. to_double x = of_int m * 2 powi k \<and> \<bar>m\<bar> < 2 ^ 53 \<and> - 1074 \<le> k"
proof (cases "x = 0")
  case True
  have "to_double x = of_int 0 * 2 powi 0 \<and> \<bar>0::int\<bar> < 2 ^ 53 \<and> - 1074 \<le> (0::int)"
    by (simp add: True to_double_def)
  then show ?thesis
    by blast
next
  case False
  define k where "k = max (exponent \<bar>x\<bar>) (- 1022) - 52"
  define M where "M = round_even (x / 2 powi k)"
  have td: "to_double x = of_int M * 2 powi k"
    using False by (simp add: to_double_def Let_def k_def M_def)
  have k: "- 1074 \<le> k"
    by (simp add: k_def)
  have "\<bar>x\<bar> < 2 powi (exponent \<bar>x\<bar> + 1)"
    using False by (intro exponent_bounds) simp
  also have "\<dots> \<le> 2 powi (k + 53)"
    by (intro power_int_increasing) (simp_all add: k_def)
  also have "\<dots> = 2 ^ 53 * 2 powi k"
    by (simp add: power_int_add)
  finally have "\<bar>x / 2 powi k\<bar> < 2 ^ 53"
    by (simp add: abs_divide pos_divide_less_eq)
  then have "\<bar>x / 2 powi k\<bar> < of_int (2 ^ 53)"
    by simp
  then have M: "\<bar>M\<bar> \<le> 2 ^ 53"
    unfolding M_def by (rule round_even_abs_le)
  show ?thesis
  proof (cases "\<bar>M\<bar> < 2 ^ 53")
    case True
    with td k show ?thesis
      by blast
  next
    case False
    with M have "M = 2 ^ 53 \<or> M = - (2 ^ 53)"
      by linarith
    then have "to_double x = of_int (M div 2) * 2 powi (k + 1) \<and> \<bar>M div 2\<bar> < 2 ^ 53"
      by (auto simp: td power_int_add)
    with k show ?thesis
      by (intro exI [of _ "M div 2"] exI [of _ "k + 1"]) simp
  qed
qed

lemma to_double_idem: "to_double (to_double x) = to_double x"
proof -
  from to_double_range [of x] obtain m k where
    "to_double x = of_int m * 2 powi k" "\<bar>m\<bar> < 2 ^ 53" "- 1074 \<le> k"
    by blast
  then show ?thesis
    by (rule to_double_fixed)
qed

lemma to_double_zero: "to_double 0 = 0"
  by (simp add: to_double_def)


lemma double_multiple:
  fixes y :: rat
  assumes "y = of_int m * 2 powi k" and "j \<le> k"
  shows "\<exists>n. y = of_int n * 2 powi j"
proof -
  have "(2::rat) powi k = 2 powi (k - j) * 2 powi j"
    by (simp flip: power_int_add)
  also have "(2::rat) powi (k - j) = of_int (2 ^ nat (k - j))"
    using assms(2) by (simp add: power_int_nonneg_exp)
  finally have "y = of_int (m * 2 ^ nat (k - j)) * 2 powi j"
    by (simp add: assms(1))
  then show ?thesis
    by blast
qed


lemma to_double_multiple:
  assumes "of_int \<lfloor>x / 2 powi k\<rfloor> * 2 powi k = x" and "\<bar>x\<bar> < 2 powi (k + 53)" and "- 1074 \<le> k"
  shows "to_double x = x"
proof -
  define m where "m = \<lfloor>x / 2 powi k\<rfloor>"
  have x: "x = of_int m * 2 powi k"
    using assms(1) by (simp add: m_def)
  have "\<bar>of_int m :: rat\<bar> * 2 powi k < 2 ^ 53 * 2 powi k"
    using assms(2) by (simp add: x abs_mult power_int_add)
  then have "\<bar>of_int m :: rat\<bar> < 2 ^ 53"
    by simp
  then have "(of_int \<bar>m\<bar> :: rat) < of_int (2 ^ 53)"
    by simp
  then have m: "\<bar>m\<bar> < 2 ^ 53"
    by (simp only: of_int_less_iff)
  from x m assms(3) show ?thesis
    by (rule to_double_fixed)
qed

lemma multiple_add:
  fixes x y :: rat
  assumes "of_int \<lfloor>x / 2 powi k\<rfloor> * 2 powi k = x" and "of_int \<lfloor>y / 2 powi k\<rfloor> * 2 powi k = y"
  shows "of_int \<lfloor>(x + y) / 2 powi k\<rfloor> * 2 powi k = x + y"
proof -
  define m where "m = \<lfloor>x / 2 powi k\<rfloor>"
  define n where "n = \<lfloor>y / 2 powi k\<rfloor>"
  have "x + y = of_int (m + n) * 2 powi k"
    using assms by (simp add: m_def n_def algebra_simps)
  then have "(x + y) / 2 powi k = of_int (m + n)"
    by simp
  then have "\<lfloor>(x + y) / 2 powi k\<rfloor> = m + n"
    by (simp only: floor_of_int)
  with \<open>x + y = of_int (m + n) * 2 powi k\<close> show ?thesis
    by simp
qed


lemma Number_add_double: "to_double (Number_add x y) = Number_add x y"
  by (simp add: Number_add_def to_double_idem)

lemma Number_add_zero: "to_double a = a \<Longrightarrow> Number_add a 0 = a"
  by (simp add: Number_add_def)


text \<open>Adding zero to a double leaves it as it is, so a sum skips the terms that are zero.\<close>

lemma foldl_Number_add_filter:
  assumes "to_double a = a" and "\<And>x. x \<in> set xs \<Longrightarrow> \<not> P x \<Longrightarrow> g x = 0"
  shows "foldl (\<lambda>sum x. Number_add sum (g x)) a xs = foldl Number_add a (map g (filter P xs))"
  using assms
proof (induction xs arbitrary: a)
  case Nil
  show ?case by simp
next
  case (Cons x xs)
  show ?case
  proof (cases "P x")
    case True
    have "foldl (\<lambda>sum x. Number_add sum (g x)) (Number_add a (g x)) xs =
        foldl Number_add (Number_add a (g x)) (map g (filter P xs))"
      by (rule Cons.IH) (simp_all add: Number_add_double Cons.prems)
    with True show ?thesis
      by simp
  next
    case False
    then have "g x = 0"
      using Cons.prems(2) by simp
    then have step: "Number_add a (g x) = a"
      using Cons.prems(1) by (simp add: Number_add_zero)
    have "foldl (\<lambda>sum x. Number_add sum (g x)) a xs = foldl Number_add a (map g (filter P xs))"
      by (rule Cons.IH) (simp_all add: Cons.prems)
    with False step show ?thesis
      by simp
  qed
qed

text \<open>A sum of multiples of \<open>2^k\<close> is exact as long as it stays below \<open>2^(k+53)\<close>.\<close>

lemma foldl_Number_add_exact:
  assumes "- 1074 \<le> k"
    and "of_int \<lfloor>a / 2 powi k\<rfloor> * 2 powi k = a"
    and "list_all (\<lambda>x. of_int \<lfloor>x / 2 powi k\<rfloor> * 2 powi k = x) xs"
    and "\<bar>a\<bar> + sum_list (map abs xs) < 2 powi (k + 53)"
  shows "foldl Number_add a xs = a + sum_list xs"
  using assms(2-)
proof (induction xs arbitrary: a)
  case Nil
  show ?case by simp
next
  case (Cons x xs)
  have x: "of_int \<lfloor>x / 2 powi k\<rfloor> * 2 powi k = x"
    using Cons.prems(2) by simp
  have m: "of_int \<lfloor>(a + x) / 2 powi k\<rfloor> * 2 powi k = a + x"
    using Cons.prems(1) x by (rule multiple_add)
  have "0 \<le> sum_list (map abs xs)"
    by (rule sum_list_nonneg) auto
  with Cons.prems(3) have small: "\<bar>a + x\<bar> < 2 powi (k + 53)"
    by simp
  have step: "Number_add a x = a + x"
    unfolding Number_add_def using m small assms(1) by (rule to_double_multiple)
  have "foldl Number_add (a + x) xs = (a + x) + sum_list xs"
  proof (rule Cons.IH [OF m])
    show "list_all (\<lambda>x. of_int \<lfloor>x / 2 powi k\<rfloor> * 2 powi k = x) xs"
      using Cons.prems(2) by simp
    show "\<bar>a + x\<bar> + sum_list (map abs xs) < 2 powi (k + 53)"
      using Cons.prems(3) by simp
  qed
  with step show ?case
    by (simp add: add.assoc)
qed

text \<open>Rounding takes a number to a double that no other double is nearer to.\<close>

lemma round_even_nearest: "\<bar>of_int (round_even t) - t\<bar> \<le> \<bar>of_int n - t\<bar>"
  for t :: rat
proof -
  define fl where "fl = \<lfloor>t\<rfloor>"
  define d where "d = t - of_int fl"
  have d: "0 \<le> d" "d < 1"
    unfolding d_def fl_def by linarith+
  have t: "t = of_int fl + d"
    by (simp add: d_def)
  have r: "round_even t = (if d < 1 / 2 then fl else if 1 / 2 < d then fl + 1
      else if even fl then fl else fl + 1)"
    by (simp add: round_even_def Let_def fl_def d_def)
  have "of_int (round_even t) - t = of_int (round_even t) - of_int fl - d"
    by (simp add: d_def)
  also have "\<dots> = (if d < 1 / 2 then - d else if 1 / 2 < d then 1 - d
      else if even fl then - d else 1 - d)"
    unfolding r by simp
  finally have near: "\<bar>of_int (round_even t) - t\<bar> \<le> d"
    "\<bar>of_int (round_even t) - t\<bar> \<le> 1 - d"
    using d by (auto split: if_splits)
  show ?thesis
  proof (cases "n \<le> fl")
    case True
    then have "(of_int n :: rat) \<le> of_int fl"
      by (simp only: of_int_le_iff)
    then have "d \<le> \<bar>of_int n - t\<bar>"
      using d by (simp add: t)
    with near(1) show ?thesis
      by linarith
  next
    case False
    then have "fl + 1 \<le> n"
      by simp
    then have "(of_int (fl + 1) :: rat) \<le> of_int n"
      by (simp only: of_int_le_iff)
    then have "1 - d \<le> \<bar>of_int n - t\<bar>"
      using d by (simp add: t)
    with near(2) show ?thesis
      by linarith
  qed
qed

lemma to_double_grid:
  assumes "x \<noteq> 0"
  shows "\<bar>to_double x - x\<bar> \<le>
     \<bar>of_int n * 2 powi (max (exponent \<bar>x\<bar>) (- 1022) - 52) - x\<bar>"
proof -
  define q :: rat where "q = 2 powi (max (exponent \<bar>x\<bar>) (- 1022) - 52)"
  have q: "0 < q"
    by (simp add: q_def)
  have td: "to_double x = of_int (round_even (x / q)) * q"
    using assms by (simp add: to_double_def Let_def q_def)
  have scale: "\<bar>of_int i * q - x\<bar> = \<bar>of_int i - x / q\<bar> * q" for i :: int
  proof -
    have "of_int i * q - x = (of_int i - x / q) * q"
      using q by (simp add: field_simps)
    then have "\<bar>of_int i * q - x\<bar> = \<bar>of_int i - x / q\<bar> * \<bar>q\<bar>"
      by (simp only: abs_mult)
    with q show ?thesis
      by simp
  qed
  have "\<bar>to_double x - x\<bar> = \<bar>of_int (round_even (x / q)) - x / q\<bar> * q"
    unfolding td by (rule scale)
  also have "\<dots> \<le> \<bar>of_int n - x / q\<bar> * q"
    using q round_even_nearest [of "x / q" n] by (simp add: mult_right_mono)
  also have "\<dots> = \<bar>of_int n * q - x\<bar>"
    by (rule scale [symmetric])
  finally show ?thesis
    by (simp only: q_def)
qed

lemma to_double_nearest:
  assumes "to_double d = d"
  shows "\<bar>to_double x - x\<bar> \<le> \<bar>d - x\<bar>"
proof (cases "x = 0")
  case True
  then show ?thesis
    by (simp add: to_double_zero)
next
  case False
  define E where "E = max (exponent \<bar>x\<bar>) (- 1022)"
  from to_double_range [of d] assms obtain m k where
    d: "d = of_int m * 2 powi k" and m: "\<bar>m\<bar> < 2 ^ 53" and k: "- 1074 \<le> k"
    by auto
  show ?thesis
  proof (cases "E - 52 \<le> k")
    case True
    with d obtain n where "d = of_int n * 2 powi (E - 52)"
      using double_multiple by blast
    with to_double_grid [OF False, of n] show ?thesis
      by (simp add: E_def)
  next
    case small: False
    with k have E: "E = exponent \<bar>x\<bar>"
      by (simp add: E_def)
    have lo: "2 powi E \<le> \<bar>x\<bar>"
      unfolding E using False by (intro exponent_bounds) simp
    have "\<bar>d\<bar> = of_int \<bar>m\<bar> * 2 powi k"
      by (simp add: d abs_mult)
    also have "\<dots> < 2 ^ 53 * 2 powi k"
      using m by (intro mult_strict_right_mono) (simp_all flip: of_int_less_iff)
    also have "(2::rat) ^ 53 * 2 powi k = 2 powi (k + 53)"
      by (simp add: power_int_add)
    also have "\<dots> \<le> 2 powi E"
      using small by (intro power_int_increasing) simp_all
    finally have dE: "\<bar>d\<bar> < 2 powi E" .
    define s :: int where "s = (if 0 < x then 1 else - 1)"
    have grid: "of_int (s * 2 ^ 52) * 2 powi (E - 52) = of_int s * (2::rat) powi E"
    proof -
      have "(2::rat) powi (52 + (E - 52)) = 2 powi 52 * 2 powi (E - 52)"
        by (rule power_int_add) simp
      then have "(2::rat) ^ 52 * 2 powi (E - 52) = 2 powi E"
        by simp
      moreover have "of_int (s * 2 ^ 52) * 2 powi (E - 52) =
          of_int s * ((2::rat) ^ 52 * 2 powi (E - 52))"
        by simp
      ultimately show ?thesis
        by (simp only:)
    qed
    have "\<bar>to_double x - x\<bar> \<le> \<bar>of_int (s * 2 ^ 52) * 2 powi (E - 52) - x\<bar>"
      using to_double_grid [OF False, of "s * 2 ^ 52"] by (simp only: E_def)
    also have "\<dots> = \<bar>x\<bar> - 2 powi E"
      unfolding grid using lo False by (auto simp: s_def abs_if)
    also have "\<dots> \<le> \<bar>d - x\<bar>"
      using dE by linarith
    finally show ?thesis .
  qed
qed


subsection \<open>The sort is a stable sort by the date\<close>

lemma insert_by_mset: "mset (insert_by c x ys) = add_mset x (mset ys)"
  by (induction ys) simp_all

lemma Array_sort_mset: "mset (Array_sort c xs) = mset xs"
  unfolding Array_sort_def by (induction xs) (simp_all add: insert_by_mset)

lemma Array_sort_set: "set (Array_sort c xs) = set xs"
  using Array_sort_mset [of c xs] by (metis set_mset_mset)

lemma Array_sort_Cons: "Array_sort c (x # xs) = insert_by c x (Array_sort c xs)"
  by (simp add: Array_sort_def)

lemma insert_by_insort_key:
  assumes "\<And>y. y \<in> set ys \<Longrightarrow> c x y = Some (g x - g y)"
  shows "insert_by c x ys = insort_key g x ys"
  using assms by (induction ys) (simp_all add: SortCompare_def)

lemma Array_sort_sort_key:
  assumes "\<And>x y. x \<in> set xs \<Longrightarrow> y \<in> set xs \<Longrightarrow> c x y = Some (g x - g y)"
  shows "Array_sort c xs = sort_key g xs"
  using assms
proof (induction xs)
  case Nil
  show ?case by (simp add: Array_sort_def)
next
  case (Cons a xs)
  have rest: "Array_sort c xs = sort_key g xs"
    using Cons by simp
  have "insert_by c a (sort_key g xs) = insort_key g a (sort_key g xs)"
    by (rule insert_by_insort_key) (simp add: Cons.prems)
  with rest show ?case
    by (simp add: Array_sort_Cons)
qed

lemma time_diff_Some: "time_diff (Some x) (Some y) = Some (x - y)"
  by (simp add: time_diff_def)

lemma insort_key_map: "insort_key g (h x) (map h xs) = map h (insort_key (\<lambda>x. g (h x)) x xs)"
  by (induction xs) simp_all

lemma sort_key_map: "sort_key g (map h xs) = map h (sort_key (\<lambda>x. g (h x)) xs)"
  by (induction xs) (simp_all add: insort_key_map)

lemma mset_map_reorder:
  "mset ys = mset (map h xs) \<Longrightarrow> \<exists>xs'. mset xs' = mset xs \<and> ys = map h xs'"
proof (induction ys arbitrary: xs)
  case Nil
  then show ?case by simp
next
  case (Cons y ys)
  have "set (y # ys) = set (map h xs)"
    using Cons.prems by (rule mset_eq_setD)
  then have "y \<in> h ` set xs"
    by auto
  then obtain x where x: "x \<in> set xs" "h x = y"
    by (rule imageE) simp
  have "mset xs = add_mset x (mset (remove1 x xs))"
    using x(1) by simp
  then have "image_mset h (mset xs) = image_mset h (add_mset x (mset (remove1 x xs)))"
    by (rule arg_cong)
  then have split: "mset (map h xs) = add_mset y (mset (map h (remove1 x xs)))"
    by (simp add: x(2))
  have "add_mset y (mset ys) = add_mset y (mset (map h (remove1 x xs)))"
    using Cons.prems unfolding split by simp
  then have "mset ys = mset (map h (remove1 x xs))"
    by (simp only: add_mset_add_mset_same_iff)
  from Cons.IH [OF this] obtain zs where zs: "mset zs = mset (remove1 x xs)" "ys = map h zs"
    by (elim exE conjE)
  have "mset (x # zs) = add_mset x (mset (remove1 x xs))"
    by (simp only: mset.simps zs(1))
  also have "\<dots> = mset xs"
    using x(1) by simp
  finally have "mset (x # zs) = mset xs" .
  moreover have "y # ys = map h (x # zs)"
    by (simp add: zs(2) x(2))
  ultimately have "mset (x # zs) = mset xs \<and> y # ys = map h (x # zs)"
    by (rule conjI)
  then show ?case
    by (rule exI)
qed

subsection \<open>The totals\<close>

lemma combined_kinds:
  "filter (\<lambda>tx. type tx = Order) (combined rt ctx f) =
     map (order_transaction rt) (getFilteredOrders ctx (filterParams f))"
  "filter (\<lambda>tx. type tx = Payment) (combined rt ctx f) =
     map payment_transaction (getFilteredPayments ctx (filterParams f))"
  by (simp_all add: combined_def filter_map comp_def order_transaction_def
      payment_transaction_def)

lemma transaction_kinds:
  assumes "tx \<in> set (transactions rt ctx f)"
  shows "(type tx = Order \<longrightarrow> paid tx = 0) \<and> (type tx = Payment \<longrightarrow> billed tx = 0)"
proof -
  from assms have "tx \<in> set (combined rt ctx f)"
    by (simp add: transactions_def Array_sort_set)
  then show ?thesis
    by (auto simp: combined_def order_transaction_def payment_transaction_def)
qed

lemma transactions_sort_key:
  assumes "list_all (\<lambda>ord. parseISO rt (orderDate ord) \<noteq> None)
             (getFilteredOrders ctx (filterParams f))"
    and "list_all (\<lambda>pay. parseISO rt (paymentDate pay) \<noteq> None)
             (getFilteredPayments ctx (filterParams f))"
  shows "transactions rt ctx f =
     sort_key (\<lambda>tx. the (parseISO rt (date tx))) (combined rt ctx f)"
proof -
  let ?g = "\<lambda>tx. the (parseISO rt (date tx))"
  have valid: "parseISO rt (date tx) \<noteq> None" if "tx \<in> set (combined rt ctx f)" for tx
    using that assms
    by (auto simp: combined_def list_all_iff order_transaction_def payment_transaction_def)
  have cmp: "by_date rt a b = Some (?g a - ?g b)"
    if "a \<in> set (combined rt ctx f)" "b \<in> set (combined rt ctx f)" for a b
    using valid [OF that(1)] valid [OF that(2)] by (auto simp: by_date_def time_diff_Some)
  show ?thesis
    unfolding transactions_def by (rule Array_sort_sort_key) (rule cmp)
qed

lemma totals_filter:
  "totalBilled rt ctx f =
     foldl Number_add 0 (map billed (filter (\<lambda>tx. type tx = Order) (transactions rt ctx f)))"
  "totalPaid rt ctx f =
     foldl Number_add 0 (map paid (filter (\<lambda>tx. type tx = Payment) (transactions rt ctx f)))"
proof -
  have kinds: "type tx \<noteq> Order \<Longrightarrow> billed tx = 0" "type tx \<noteq> Payment \<Longrightarrow> paid tx = 0"
    if "tx \<in> set (transactions rt ctx f)" for tx
    using transaction_kinds [OF that] by (cases "type tx"; simp)+
  show "totalBilled rt ctx f =
     foldl Number_add 0 (map billed (filter (\<lambda>tx. type tx = Order) (transactions rt ctx f)))"
    unfolding totalBilled_def
    by (rule foldl_Number_add_filter) (simp_all add: to_double_zero kinds)
  show "totalPaid rt ctx f =
     foldl Number_add 0 (map paid (filter (\<lambda>tx. type tx = Payment) (transactions rt ctx f)))"
    unfolding totalPaid_def
    by (rule foldl_Number_add_filter) (simp_all add: to_double_zero kinds)
qed


lemma transactions_reorder:
  "\<exists>os ps. mset os = mset (getFilteredOrders ctx (filterParams f)) \<and>
     mset ps = mset (getFilteredPayments ctx (filterParams f)) \<and>
     filter (\<lambda>tx. type tx = Order) (transactions rt ctx f) = map (order_transaction rt) os \<and>
     filter (\<lambda>tx. type tx = Payment) (transactions rt ctx f) = map payment_transaction ps"
proof -
  have m: "mset (filter P (transactions rt ctx f)) = mset (filter P (combined rt ctx f))" for P
    by (simp add: transactions_def Array_sort_mset)
  have "mset (filter (\<lambda>tx. type tx = Order) (transactions rt ctx f)) =
      mset (map (order_transaction rt) (getFilteredOrders ctx (filterParams f)))"
    by (simp only: m combined_kinds)
  from mset_map_reorder [OF this] obtain os where
    os: "mset os = mset (getFilteredOrders ctx (filterParams f))"
      "filter (\<lambda>tx. type tx = Order) (transactions rt ctx f) = map (order_transaction rt) os"
    by (elim exE conjE)
  have "mset (filter (\<lambda>tx. type tx = Payment) (transactions rt ctx f)) =
      mset (map payment_transaction (getFilteredPayments ctx (filterParams f)))"
    by (simp only: m combined_kinds)
  from mset_map_reorder [OF this] obtain ps where
    ps: "mset ps = mset (getFilteredPayments ctx (filterParams f))"
      "filter (\<lambda>tx. type tx = Payment) (transactions rt ctx f) = map payment_transaction ps"
    by (elim exE conjE)
  show ?thesis
    by (intro exI [of _ os] exI [of _ ps] conjI os ps)
qed

lemma billed_order_transaction: "map billed (map (order_transaction rt) os) = map totalAmount os"
  by (simp add: order_transaction_def comp_def)

lemma paid_payment_transaction: "map paid (map payment_transaction ps) = map amount ps"
  by (simp add: payment_transaction_def comp_def)

lemma sum_list_reorder:
  fixes g :: "'a \<Rightarrow> rat"
  assumes "mset xs = mset ys"
  shows "sum_list (map g xs) = sum_list (map g ys)"
proof -
  have "image_mset g (mset xs) = image_mset g (mset ys)"
    using assms by (rule arg_cong)
  then have "sum_mset (mset (map g xs)) = sum_mset (mset (map g ys))"
    by simp
  then show ?thesis
    by (simp only: sum_mset_sum_list)
qed

lemma list_all_reorder: "mset xs = mset ys \<Longrightarrow> list_all P xs = list_all P ys"
  using mset_eq_setD [of xs ys] by (simp add: list_all_iff)

lemma totals_by_date:
  assumes "list_all (\<lambda>ord. parseISO rt (orderDate ord) \<noteq> None)
             (getFilteredOrders ctx (filterParams f))"
    and "list_all (\<lambda>pay. parseISO rt (paymentDate pay) \<noteq> None)
             (getFilteredPayments ctx (filterParams f))"
  shows "totalBilled rt ctx f =
       foldl Number_add 0 (map totalAmount
         (sort_key (\<lambda>ord. the (parseISO rt (orderDate ord)))
            (getFilteredOrders ctx (filterParams f))))"
    and "totalPaid rt ctx f =
       foldl Number_add 0 (map amount
         (sort_key (\<lambda>pay. the (parseISO rt (paymentDate pay)))
            (getFilteredPayments ctx (filterParams f))))"
proof -
  let ?g = "\<lambda>tx. the (parseISO rt (date tx))"
  have t: "transactions rt ctx f = sort_key ?g (combined rt ctx f)"
    using assms by (rule transactions_sort_key)
  have "filter (\<lambda>tx. type tx = Order) (transactions rt ctx f) =
      sort_key ?g (map (order_transaction rt) (getFilteredOrders ctx (filterParams f)))"
    by (simp only: t filter_sort combined_kinds)
  also have "\<dots> = map (order_transaction rt)
      (sort_key (\<lambda>ord. ?g (order_transaction rt ord)) (getFilteredOrders ctx (filterParams f)))"
    by (rule sort_key_map)
  also have "(\<lambda>ord. ?g (order_transaction rt ord)) = (\<lambda>ord. the (parseISO rt (orderDate ord)))"
    by (simp add: order_transaction_def)
  finally show "totalBilled rt ctx f =
       foldl Number_add 0 (map totalAmount
         (sort_key (\<lambda>ord. the (parseISO rt (orderDate ord)))
            (getFilteredOrders ctx (filterParams f))))"
    by (simp only: totals_filter billed_order_transaction)
  have "filter (\<lambda>tx. type tx = Payment) (transactions rt ctx f) =
      sort_key ?g (map payment_transaction (getFilteredPayments ctx (filterParams f)))"
    by (simp only: t filter_sort combined_kinds)
  also have "\<dots> = map payment_transaction
      (sort_key (\<lambda>pay. ?g (payment_transaction pay)) (getFilteredPayments ctx (filterParams f)))"
    by (rule sort_key_map)
  also have "(\<lambda>pay. ?g (payment_transaction pay)) = (\<lambda>pay. the (parseISO rt (paymentDate pay)))"
    by (simp add: payment_transaction_def)
  finally show "totalPaid rt ctx f =
       foldl Number_add 0 (map amount
         (sort_key (\<lambda>pay. the (parseISO rt (paymentDate pay)))
            (getFilteredPayments ctx (filterParams f))))"
    by (simp only: totals_filter paid_payment_transaction)
qed

lemma rounded_sum_exact:
  assumes "mset zs = mset xs" and "- 1074 \<le> k"
    and "list_all (\<lambda>x. of_int \<lfloor>g x / 2 powi k\<rfloor> * 2 powi k = g x) xs"
    and "sum_list (map (\<lambda>x. \<bar>g x\<bar>) xs) < 2 powi (k + 53)"
  shows "foldl Number_add 0 (map g zs) = sum_list (map g xs)"
proof -
  have m: "list_all (\<lambda>x. of_int \<lfloor>x / 2 powi k\<rfloor> * 2 powi k = x) (map g zs)"
    using assms(3) list_all_reorder [OF assms(1), of "\<lambda>x. of_int \<lfloor>g x / 2 powi k\<rfloor> * 2 powi k = g x"]
    by (simp add: list_all_iff)
  have "sum_list (map abs (map g zs)) = sum_list (map (\<lambda>x. \<bar>g x\<bar>) zs)"
    by (simp add: comp_def)
  also have "\<dots> = sum_list (map (\<lambda>x. \<bar>g x\<bar>) xs)"
    using assms(1) by (rule sum_list_reorder)
  finally have s: "\<bar>0\<bar> + sum_list (map abs (map g zs)) < 2 powi (k + 53)"
    using assms(4) by simp
  have z: "of_int \<lfloor>0 / 2 powi k\<rfloor> * 2 powi k = (0::rat)"
    by simp
  have "foldl Number_add 0 (map g zs) = 0 + sum_list (map g zs)"
    using assms(2) z m s by (rule foldl_Number_add_exact)
  also have "\<dots> = sum_list (map g xs)"
    using sum_list_reorder [OF assms(1), of g] by simp
  finally show ?thesis .
qed

text \<open>
  C1, as amended. The query of the window carries the customer, or nothing when no
  customer is selected, and the two dates. Each returned order is one transaction, billed
  its \<open>totalAmount\<close> and paid nothing, and each returned payment is one transaction, paid
  its \<open>amount\<close> and billed nothing. \<open>totalBilled\<close> is the sum of \<open>totalAmount\<close> over the
  returned orders, added up from zero in the order in which the orders stand among the
  transactions, every addition rounded to a double that no other double is nearer to the
  exact sum; that order is the order of their dates when \<open>parseISO\<close> reads the dates
  of the window. It is the exact sum when the
  amounts are multiples of one power of two \<open>2^k\<close> and their magnitudes add up to less
  than \<open>2^(k+53)\<close>. The same holds of \<open>totalPaid\<close> and the \<open>amount\<close> of the payments.
\<close>

theorem totals_are_rounded_sums:
  "filterParams f =
     \<lparr>fp_customer = (if customer f = '''' then None else Some (customer f)),
      fp_dateFrom = dateFrom f, fp_dateTo = dateTo f\<rparr> \<and>
   (\<exists>os ps.
      mset os = mset (getFilteredOrders ctx (filterParams f)) \<and>
      mset ps = mset (getFilteredPayments ctx (filterParams f)) \<and>
      filter (\<lambda>tx. type tx = Order) (transactions rt ctx f) = map (order_transaction rt) os \<and>
      filter (\<lambda>tx. type tx = Payment) (transactions rt ctx f) = map payment_transaction ps \<and>
      totalBilled rt ctx f = foldl Number_add 0 (map totalAmount os) \<and>
      totalPaid rt ctx f = foldl Number_add 0 (map amount ps)) \<and>
   (list_all (\<lambda>ord. parseISO rt (orderDate ord) \<noteq> None)
      (getFilteredOrders ctx (filterParams f)) \<and>
    list_all (\<lambda>pay. parseISO rt (paymentDate pay) \<noteq> None)
      (getFilteredPayments ctx (filterParams f)) \<longrightarrow>
    totalBilled rt ctx f =
      foldl Number_add 0 (map totalAmount
        (sort_key (\<lambda>ord. the (parseISO rt (orderDate ord)))
           (getFilteredOrders ctx (filterParams f)))) \<and>
    totalPaid rt ctx f =
      foldl Number_add 0 (map amount
        (sort_key (\<lambda>pay. the (parseISO rt (paymentDate pay)))
           (getFilteredPayments ctx (filterParams f))))) \<and>
   (- 1074 \<le> k \<and>
    list_all (\<lambda>ord. of_int \<lfloor>totalAmount ord / 2 powi k\<rfloor> * 2 powi k = totalAmount ord)
      (getFilteredOrders ctx (filterParams f)) \<and>
    sum_list (map (\<lambda>ord. \<bar>totalAmount ord\<bar>) (getFilteredOrders ctx (filterParams f))) <
      2 powi (k + 53) \<longrightarrow>
    totalBilled rt ctx f =
      sum_list (map totalAmount (getFilteredOrders ctx (filterParams f)))) \<and>
   (- 1074 \<le> k \<and>
    list_all (\<lambda>pay. of_int \<lfloor>amount pay / 2 powi k\<rfloor> * 2 powi k = amount pay)
      (getFilteredPayments ctx (filterParams f)) \<and>
    sum_list (map (\<lambda>pay. \<bar>amount pay\<bar>) (getFilteredPayments ctx (filterParams f))) <
      2 powi (k + 53) \<longrightarrow>
    totalPaid rt ctx f =
      sum_list (map amount (getFilteredPayments ctx (filterParams f)))) \<and>
   (\<forall>x y d. to_double d = d \<longrightarrow>
      to_double (Number_add x y) = Number_add x y \<and>
      \<bar>Number_add x y - (x + y)\<bar> \<le> \<bar>d - (x + y)\<bar>) \<and>
   billed (order_transaction rt ord) = totalAmount ord \<and> paid (order_transaction rt ord) = 0 \<and>
   paid (payment_transaction pay) = amount pay \<and> billed (payment_transaction pay) = 0"
proof -
  from transactions_reorder [of ctx f rt] obtain os ps where
    os: "mset os = mset (getFilteredOrders ctx (filterParams f))"
    and ps: "mset ps = mset (getFilteredPayments ctx (filterParams f))"
    and fo: "filter (\<lambda>tx. type tx = Order) (transactions rt ctx f) =
      map (order_transaction rt) os"
    and fp: "filter (\<lambda>tx. type tx = Payment) (transactions rt ctx f) =
      map payment_transaction ps"
    by (elim exE conjE)
  have tb: "totalBilled rt ctx f = foldl Number_add 0 (map totalAmount os)"
    by (simp only: totals_filter fo billed_order_transaction)
  have tp: "totalPaid rt ctx f = foldl Number_add 0 (map amount ps)"
    by (simp only: totals_filter fp paid_payment_transaction)
  have query: "filterParams f =
     \<lparr>fp_customer = (if customer f = '''' then None else Some (customer f)),
      fp_dateFrom = dateFrom f, fp_dateTo = dateTo f\<rparr>"
    by (simp add: filterParams_def)
  have perm: "\<exists>os ps.
      mset os = mset (getFilteredOrders ctx (filterParams f)) \<and>
      mset ps = mset (getFilteredPayments ctx (filterParams f)) \<and>
      filter (\<lambda>tx. type tx = Order) (transactions rt ctx f) = map (order_transaction rt) os \<and>
      filter (\<lambda>tx. type tx = Payment) (transactions rt ctx f) = map payment_transaction ps \<and>
      totalBilled rt ctx f = foldl Number_add 0 (map totalAmount os) \<and>
      totalPaid rt ctx f = foldl Number_add 0 (map amount ps)"
    by (intro exI [of _ os] exI [of _ ps] conjI os ps fo fp tb tp)
  have dates: "list_all (\<lambda>ord. parseISO rt (orderDate ord) \<noteq> None)
      (getFilteredOrders ctx (filterParams f)) \<and>
    list_all (\<lambda>pay. parseISO rt (paymentDate pay) \<noteq> None)
      (getFilteredPayments ctx (filterParams f)) \<longrightarrow>
    totalBilled rt ctx f =
      foldl Number_add 0 (map totalAmount
        (sort_key (\<lambda>ord. the (parseISO rt (orderDate ord)))
           (getFilteredOrders ctx (filterParams f)))) \<and>
    totalPaid rt ctx f =
      foldl Number_add 0 (map amount
        (sort_key (\<lambda>pay. the (parseISO rt (paymentDate pay)))
           (getFilteredPayments ctx (filterParams f))))"
    using totals_by_date [of rt ctx f] by (intro impI conjI) (elim conjE, assumption)+
  have eb: "- 1074 \<le> k \<and>
    list_all (\<lambda>ord. of_int \<lfloor>totalAmount ord / 2 powi k\<rfloor> * 2 powi k = totalAmount ord)
      (getFilteredOrders ctx (filterParams f)) \<and>
    sum_list (map (\<lambda>ord. \<bar>totalAmount ord\<bar>) (getFilteredOrders ctx (filterParams f))) <
      2 powi (k + 53) \<longrightarrow>
    totalBilled rt ctx f =
      sum_list (map totalAmount (getFilteredOrders ctx (filterParams f)))"
    unfolding tb using rounded_sum_exact [OF os, of k totalAmount] by (intro impI) (elim conjE)
  have ep: "- 1074 \<le> k \<and>
    list_all (\<lambda>pay. of_int \<lfloor>amount pay / 2 powi k\<rfloor> * 2 powi k = amount pay)
      (getFilteredPayments ctx (filterParams f)) \<and>
    sum_list (map (\<lambda>pay. \<bar>amount pay\<bar>) (getFilteredPayments ctx (filterParams f))) <
      2 powi (k + 53) \<longrightarrow>
    totalPaid rt ctx f =
      sum_list (map amount (getFilteredPayments ctx (filterParams f)))"
    unfolding tp using rounded_sum_exact [OF ps, of k amount] by (intro impI) (elim conjE)
  have fields: "billed (order_transaction rt ord) = totalAmount ord \<and>
      paid (order_transaction rt ord) = 0 \<and>
      paid (payment_transaction pay) = amount pay \<and> billed (payment_transaction pay) = 0"
    by (simp add: order_transaction_def payment_transaction_def)
  have near: "\<forall>x y d. to_double d = d \<longrightarrow>
      to_double (Number_add x y) = Number_add x y \<and>
      \<bar>Number_add x y - (x + y)\<bar> \<le> \<bar>d - (x + y)\<bar>"
    unfolding Number_add_def by (intro allI impI conjI to_double_idem to_double_nearest)
  show ?thesis
    by (intro conjI query perm dates eb ep near fields [THEN conjunct1]
        fields [THEN conjunct2, THEN conjunct1]
        fields [THEN conjunct2, THEN conjunct2, THEN conjunct1]
        fields [THEN conjunct2, THEN conjunct2, THEN conjunct2])
qed

theorem totals_are_rounded_sums_witness:
  "list_all (\<lambda>ord. parseISO sample_runtime (orderDate ord) \<noteq> None)
     (getFilteredOrders sample_context (filterParams sample_filters)) \<and>
   list_all (\<lambda>pay. parseISO sample_runtime (paymentDate pay) \<noteq> None)
     (getFilteredPayments sample_context (filterParams sample_filters)) \<and>
   (- 1074 :: int) \<le> - 1 \<and>
   list_all (\<lambda>ord. of_int \<lfloor>totalAmount ord / 2 powi (- 1)\<rfloor> * 2 powi (- 1) = totalAmount ord)
     (getFilteredOrders sample_context (filterParams sample_filters)) \<and>
   sum_list (map (\<lambda>ord. \<bar>totalAmount ord\<bar>)
     (getFilteredOrders sample_context (filterParams sample_filters))) < 2 powi (- 1 + 53) \<and>
   list_all (\<lambda>pay. of_int \<lfloor>amount pay / 2 powi (- 1)\<rfloor> * 2 powi (- 1) = amount pay)
     (getFilteredPayments sample_context (filterParams sample_filters)) \<and>
   sum_list (map (\<lambda>pay. \<bar>amount pay\<bar>)
     (getFilteredPayments sample_context (filterParams sample_filters))) < 2 powi (- 1 + 53) \<and>
   map totalAmount (getFilteredOrders sample_context (filterParams sample_filters)) =
     [100, 233 / 2, 0] \<and>
   map amount (getFilteredPayments sample_context (filterParams sample_filters)) = [60, 150] \<and>
   totalBilled sample_runtime sample_context sample_filters = 433 / 2 \<and>
   totalPaid sample_runtime sample_context sample_filters = 210 \<and>
   totalBilled sample_runtime sample_context sample_filters =
     foldl Number_add 0 (map totalAmount
       (sort_key (\<lambda>ord. the (parseISO sample_runtime (orderDate ord)))
          (getFilteredOrders sample_context (filterParams sample_filters)))) \<and>
   filterParams sample_filters =
     \<lparr>fp_customer = None, fp_dateFrom = ''2024-01-01'', fp_dateTo = ''2024-01-31''\<rparr> \<and>
   to_double 20 = 20 \<and>
   \<bar>Number_add (401 / 40) 10 - (401 / 40 + 10)\<bar> \<le> \<bar>20 - (401 / 40 + 10 :: rat)\<bar>"
proof -
  have d1: "list_all (\<lambda>ord. parseISO sample_runtime (orderDate ord) \<noteq> None)
     (getFilteredOrders sample_context (filterParams sample_filters))"
    by code_simp
  have d2: "list_all (\<lambda>pay. parseISO sample_runtime (paymentDate pay) \<noteq> None)
     (getFilteredPayments sample_context (filterParams sample_filters))"
    by code_simp
  have k: "(- 1074 :: int) \<le> - 1"
    by simp
  have m1: "list_all
     (\<lambda>ord. of_int \<lfloor>totalAmount ord / 2 powi (- 1)\<rfloor> * 2 powi (- 1) = totalAmount ord)
     (getFilteredOrders sample_context (filterParams sample_filters))"
    by code_simp
  have s1: "sum_list (map (\<lambda>ord. \<bar>totalAmount ord\<bar>)
     (getFilteredOrders sample_context (filterParams sample_filters))) < 2 powi (- 1 + 53)"
    by code_simp
  have m2: "list_all (\<lambda>pay. of_int \<lfloor>amount pay / 2 powi (- 1)\<rfloor> * 2 powi (- 1) = amount pay)
     (getFilteredPayments sample_context (filterParams sample_filters))"
    by code_simp
  have s2: "sum_list (map (\<lambda>pay. \<bar>amount pay\<bar>)
     (getFilteredPayments sample_context (filterParams sample_filters))) < 2 powi (- 1 + 53)"
    by code_simp
  have e1: "map totalAmount (getFilteredOrders sample_context (filterParams sample_filters)) =
     [100, 233 / 2, 0]"
    by code_simp
  have e2: "map amount (getFilteredPayments sample_context (filterParams sample_filters)) =
     [60, 150]"
    by code_simp
  have q: "\<lparr>fp_customer = (if customer sample_filters = '''' then None
        else Some (customer sample_filters)),
      fp_dateFrom = dateFrom sample_filters, fp_dateTo = dateTo sample_filters\<rparr> =
     \<lparr>fp_customer = None, fp_dateFrom = ''2024-01-01'', fp_dateTo = ''2024-01-31''\<rparr>"
    by code_simp
  note T = totals_are_rounded_sums [of sample_filters sample_context sample_runtime "- 1"]
  from T q have fp: "filterParams sample_filters =
     \<lparr>fp_customer = None, fp_dateFrom = ''2024-01-01'', fp_dateTo = ''2024-01-31''\<rparr>"
    by simp
  from T k m1 s1 have "totalBilled sample_runtime sample_context sample_filters =
      sum_list (map totalAmount (getFilteredOrders sample_context (filterParams sample_filters)))"
    by blast
  then have tb: "totalBilled sample_runtime sample_context sample_filters = 433 / 2"
    unfolding e1 by simp
  from T k m2 s2 have "totalPaid sample_runtime sample_context sample_filters =
      sum_list (map amount (getFilteredPayments sample_context (filterParams sample_filters)))"
    by blast
  then have tp: "totalPaid sample_runtime sample_context sample_filters = 210"
    unfolding e2 by simp
  from T d1 d2 have bd: "totalBilled sample_runtime sample_context sample_filters =
     foldl Number_add 0 (map totalAmount
       (sort_key (\<lambda>ord. the (parseISO sample_runtime (orderDate ord)))
          (getFilteredOrders sample_context (filterParams sample_filters))))"
    by blast
  have dd: "to_double 20 = 20"
    by code_simp
  have n: "\<bar>Number_add (401 / 40) 10 - (401 / 40 + 10)\<bar> \<le> \<bar>20 - (401 / 40 + 10 :: rat)\<bar>"
    by (rule T [THEN conjunct2, THEN conjunct2, THEN conjunct2, THEN conjunct2, THEN conjunct2,
          THEN conjunct1, rule_format, OF dd, THEN conjunct2])
  show ?thesis
    by (intro conjI d1 d2 k m1 s1 m2 s2 e1 e2 tb tp bd fp dd n)
qed

text \<open>
  C1 as stated fails on a window with an order of 10.025 rupees and an order of 10
  rupees: their sum is above 20.025 and would show as 20.03, the total of the page is
  the double below 20.025 and shows as 20.02. On a window with orders of 0.1, 0.2 and
  0.3 rupees, dated the 10th, the 1st and the 5th, the total of the page (the amounts
  added in the order of the dates) is neither the rounded sum in the order in which the
  orders were returned nor the exact sum.
\<close>

theorem rounded_total_is_not_the_sum:
  "map totalAmount (getFilteredOrders rounding_context (filterParams sample_filters)) =
     [5643573283048653 / 562949953421312, 10] \<and>
   sum_list (map totalAmount (getFilteredOrders rounding_context (filterParams sample_filters))) =
     11273072817261773 / 562949953421312 \<and>
   totalBilled sample_runtime rounding_context sample_filters =
     2818268204315443 / 140737488355328 \<and>
   totalBilled sample_runtime rounding_context sample_filters \<noteq>
     sum_list (map totalAmount (getFilteredOrders rounding_context (filterParams sample_filters))) \<and>
   toFixed sample_runtime
     (sum_list (map totalAmount
        (getFilteredOrders rounding_context (filterParams sample_filters)))) 2 = ''20.03'' \<and>
   card_total (the (Statements sample_runtime rounding_context sample_filters)) =
     rupee @ ''20.02'' \<and>
   map orderDate (getFilteredOrders drift_context (filterParams sample_filters)) =
     [''2024-01-10'', ''2024-01-01'', ''2024-01-05''] \<and>
   map totalAmount (getFilteredOrders drift_context (filterParams sample_filters)) =
     [3602879701896397 / 36028797018963968, 3602879701896397 / 18014398509481984,
      5404319552844595 / 18014398509481984] \<and>
   totalBilled sample_runtime drift_context sample_filters =
     5404319552844595 / 9007199254740992 \<and>
   foldl Number_add 0
     (map totalAmount (getFilteredOrders drift_context (filterParams sample_filters))) =
     1351079888211149 / 2251799813685248 \<and>
   sum_list (map totalAmount (getFilteredOrders drift_context (filterParams sample_filters))) =
     21617278211378381 / 36028797018963968"
proof -
  have a1: "map totalAmount (getFilteredOrders rounding_context (filterParams sample_filters)) =
     [5643573283048653 / 562949953421312, 10]"
    by code_simp
  have a2: "sum_list (map totalAmount
      (getFilteredOrders rounding_context (filterParams sample_filters))) =
     11273072817261773 / 562949953421312"
    unfolding a1 by simp
  have a3: "totalBilled sample_runtime rounding_context sample_filters =
     2818268204315443 / 140737488355328"
    by code_simp
  have a4: "totalBilled sample_runtime rounding_context sample_filters \<noteq>
     sum_list (map totalAmount (getFilteredOrders rounding_context (filterParams sample_filters)))"
    unfolding a2 a3 by simp
  have a5: "toFixed sample_runtime
     (sum_list (map totalAmount
        (getFilteredOrders rounding_context (filterParams sample_filters)))) 2 = ''20.03''"
    unfolding a2 by code_simp
  have a6: "card_total (the (Statements sample_runtime rounding_context sample_filters)) =
     rupee @ ''20.02''"
    by code_simp
  have b1: "map orderDate (getFilteredOrders drift_context (filterParams sample_filters)) =
     [''2024-01-10'', ''2024-01-01'', ''2024-01-05'']"
    by code_simp
  have b2: "map totalAmount (getFilteredOrders drift_context (filterParams sample_filters)) =
     [3602879701896397 / 36028797018963968, 3602879701896397 / 18014398509481984,
      5404319552844595 / 18014398509481984]"
    by code_simp
  have b3: "totalBilled sample_runtime drift_context sample_filters =
     5404319552844595 / 9007199254740992"
    by code_simp
  have b4: "foldl Number_add 0
     (map totalAmount (getFilteredOrders drift_context (filterParams sample_filters))) =
     1351079888211149 / 2251799813685248"
    by code_simp
  have b5: "sum_list (map totalAmount
      (getFilteredOrders drift_context (filterParams sample_filters))) =
     21617278211378381 / 36028797018963968"
    unfolding b2 by simp
  show ?thesis
    by (intro conjI a1 a2 a3 a4 a5 a6 b1 b2 b3 b4 b5)
qed

subsection \<open>The order of the transactions\<close>

text \<open>
  C2. When the date strings of the returned orders and payments are dates that
  \<open>parseISO\<close> reads, the transaction sequence is sorted non-decreasing by the parsed
  date, and the sort is stable: the transactions of one date are the orders of that date,
  in the order of \<open>getFilteredOrders\<close>, followed by the payments of that date, in the
  order of \<open>getFilteredPayments\<close>, as they stand in the concatenation that is sorted.
\<close>

theorem transactions_sorted_stable:
  assumes "list_all (\<lambda>ord. parseISO rt (orderDate ord) \<noteq> None)
             (getFilteredOrders ctx (filterParams f))"
    and "list_all (\<lambda>pay. parseISO rt (paymentDate pay) \<noteq> None)
             (getFilteredPayments ctx (filterParams f))"
  shows "sorted (map (\<lambda>tx. the (parseISO rt (date tx))) (transactions rt ctx f)) \<and>
    (\<forall>t. filter (\<lambda>tx. the (parseISO rt (date tx)) = t) (transactions rt ctx f) =
       map (order_transaction rt)
         (filter (\<lambda>ord. the (parseISO rt (orderDate ord)) = t)
            (getFilteredOrders ctx (filterParams f))) @
       map payment_transaction
         (filter (\<lambda>pay. the (parseISO rt (paymentDate pay)) = t)
            (getFilteredPayments ctx (filterParams f))))"
proof -
  let ?g = "\<lambda>tx. the (parseISO rt (date tx))"
  have valid: "parseISO rt (date tx) \<noteq> None" if "tx \<in> set (combined rt ctx f)" for tx
    using that assms
    by (auto simp: combined_def list_all_iff order_transaction_def payment_transaction_def)
  have cmp: "by_date rt a b = Some (?g a - ?g b)"
    if "a \<in> set (combined rt ctx f)" "b \<in> set (combined rt ctx f)" for a b
    using valid [OF that(1)] valid [OF that(2)] by (auto simp: by_date_def time_diff_Some)
  have eq: "transactions rt ctx f = sort_key ?g (combined rt ctx f)"
    unfolding transactions_def by (rule Array_sort_sort_key) (rule cmp)
  have s: "sorted (map ?g (transactions rt ctx f))"
    by (simp add: eq)
  have st: "filter (\<lambda>tx. ?g tx = t) (transactions rt ctx f) =
       map (order_transaction rt)
         (filter (\<lambda>ord. the (parseISO rt (orderDate ord)) = t)
            (getFilteredOrders ctx (filterParams f))) @
       map payment_transaction
         (filter (\<lambda>pay. the (parseISO rt (paymentDate pay)) = t)
            (getFilteredPayments ctx (filterParams f)))" for t
  proof -
    have "filter (\<lambda>tx. ?g tx = t) (transactions rt ctx f) =
        filter (\<lambda>tx. ?g tx = t) (combined rt ctx f)"
      unfolding eq by (rule sort_key_stable)
    also have "\<dots> = map (order_transaction rt)
         (filter (\<lambda>ord. the (parseISO rt (orderDate ord)) = t)
            (getFilteredOrders ctx (filterParams f))) @
       map payment_transaction
         (filter (\<lambda>pay. the (parseISO rt (paymentDate pay)) = t)
            (getFilteredPayments ctx (filterParams f)))"
      by (simp add: combined_def filter_map comp_def order_transaction_def
          payment_transaction_def)
    finally show ?thesis .
  qed
  from s st show ?thesis by blast
qed

theorem transactions_sorted_stable_witness:
  "list_all (\<lambda>ord. parseISO sample_runtime (orderDate ord) \<noteq> None)
     (getFilteredOrders sample_context (filterParams sample_filters)) \<and>
   list_all (\<lambda>pay. parseISO sample_runtime (paymentDate pay) \<noteq> None)
     (getFilteredPayments sample_context (filterParams sample_filters)) \<and>
   map orderDate (getFilteredOrders sample_context (filterParams sample_filters)) =
     [''2024-01-10'', ''2024-01-05'', ''2024-01-31''] \<and>
   map (\<lambda>tx. (date tx, type tx)) (transactions sample_runtime sample_context sample_filters) =
     [(''2024-01-05'', Order), (''2024-01-05'', Payment), (''2024-01-10'', Order),
      (''2024-01-10'', Payment), (''2024-01-31'', Order)] \<and>
   sorted (map (\<lambda>tx. the (parseISO sample_runtime (date tx)))
     (transactions sample_runtime sample_context sample_filters))"
proof -
  have h1: "list_all (\<lambda>ord. parseISO sample_runtime (orderDate ord) \<noteq> None)
     (getFilteredOrders sample_context (filterParams sample_filters))"
    by code_simp
  have h2: "list_all (\<lambda>pay. parseISO sample_runtime (paymentDate pay) \<noteq> None)
     (getFilteredPayments sample_context (filterParams sample_filters))"
    by code_simp
  have e1: "map orderDate (getFilteredOrders sample_context (filterParams sample_filters)) =
     [''2024-01-10'', ''2024-01-05'', ''2024-01-31'']"
    by code_simp
  have e2: "map (\<lambda>tx. (date tx, type tx))
      (transactions sample_runtime sample_context sample_filters) =
     [(''2024-01-05'', Order), (''2024-01-05'', Payment), (''2024-01-10'', Order),
      (''2024-01-10'', Payment), (''2024-01-31'', Order)]"
    by code_simp
  from transactions_sorted_stable [OF h1 h2] h1 h2 e1 e2 show ?thesis
    by blast
qed

subsection \<open>The text of toFixed\<close>

lemma digit_is_digit: "d < 10 \<Longrightarrow> is_digit (digit d)"
proof -
  assume "d < 10"
  then have "nat d < length ''0123456789''"
    by simp
  then have "''0123456789'' ! nat d \<in> set ''0123456789''"
    by (rule nth_mem)
  then show ?thesis
    by (simp only: is_digit_def digit_def)
qed

lemma digits_all_digits: "list_all is_digit (digits n)"
proof (induction n rule: digits.induct)
  case (1 n)
  show ?case
  proof (cases "n < 10")
    case True
    then show ?thesis
      by (subst digits.simps) (simp add: digit_is_digit)
  next
    case False
    with "1" show ?thesis
      by (subst digits.simps) (simp add: digit_is_digit)
  qed
qed

lemma minus_not_digit: "\<not> is_digit (CHR ''-'')"
  by (simp add: is_digit_def)

lemma zero_is_digit: "is_digit (CHR ''0'')"
  by (simp add: is_digit_def)

lemma length_two: "length xs = 2 \<Longrightarrow> \<exists>a b. xs = [a, b]"
  by (auto simp: numeral_2_eq_2 length_Suc_conv)

lemma toFixed_small:
  assumes "\<bar>x\<bar> < 10 ^ 21"
  shows "\<exists>ip d1 d2. toFixed rt x 2 = (if x < 0 then ''-'' else '''') @ ip @ ''.'' @ [d1, d2] \<and>
           ip \<noteq> [] \<and> list_all is_digit ip \<and> is_digit d1 \<and> is_digit d2"
proof -
  define a where "a = (if x < 0 then - x else x)"
  define m0 where "m0 = digits \<lfloor>a * 10 ^ 2 + 1 / 2\<rfloor>"
  define m where "m = (if length m0 \<le> 2 then replicate (3 - length m0) (CHR ''0'') @ m0 else m0)"
  have small: "\<not> 10 ^ 21 \<le> a"
    using assms by (auto simp: a_def)
  have tf: "toFixed rt x 2 =
      (if x < 0 then ''-'' else '''') @ take (length m - 2) m @ ''.'' @ drop (length m - 2) m"
    using small by (simp add: toFixed_def Let_def a_def m_def m0_def)
  have len: "3 \<le> length m"
    by (auto simp: m_def)
  have all: "list_all is_digit m"
    using digits_all_digits [of "\<lfloor>a * 10 ^ 2 + 1 / 2\<rfloor>"]
    by (auto simp: m_def m0_def zero_is_digit list_all_iff)
  have "length (drop (length m - 2) m) = 2"
    using len by simp
  then obtain d1 d2 where d: "drop (length m - 2) m = [d1, d2]"
    using length_two by blast
  have "set (drop (length m - 2) m) \<subseteq> set m"
    by (rule set_drop_subset)
  with all d have dd: "is_digit d1 \<and> is_digit d2"
    by (auto simp: list_all_iff)
  have ip: "take (length m - 2) m \<noteq> []"
    using len by auto
  have "set (take (length m - 2) m) \<subseteq> set m"
    by (rule set_take_subset)
  with all have ipd: "list_all is_digit (take (length m - 2) m)"
    by (auto simp: list_all_iff)
  from tf d dd ip ipd show ?thesis
    by auto
qed

lemma two_decimalsI:
  assumes "ip \<noteq> []" "list_all is_digit ip" "is_digit d1" "is_digit d2"
    and that: "sg = ''-'' \<or> sg = ''''"
  shows "two_decimals (sg @ ip @ ''.'' @ [d1, d2])"
proof -
  obtain c cs where ip: "ip = c # cs"
    using assms(1) by (cases ip) auto
  have c: "c \<noteq> CHR ''-''"
    using assms(2) minus_not_digit by (auto simp: ip)
  have body: "(if take 1 (sg @ ip @ ''.'' @ [d1, d2]) = ''-''
      then drop 1 (sg @ ip @ ''.'' @ [d1, d2]) else sg @ ip @ ''.'' @ [d1, d2]) =
      ip @ ''.'' @ [d1, d2]"
    using that c by (auto simp: ip)
  show ?thesis
    unfolding two_decimals_def body Let_def using assms by (simp add: nth_append ip)
qed

lemma toFixed_two_decimals: "\<bar>x\<bar> < 10 ^ 21 \<Longrightarrow> two_decimals (toFixed rt x 2)"
proof -
  assume "\<bar>x\<bar> < 10 ^ 21"
  from toFixed_small [OF this, of rt] obtain ip d1 d2 where
    "toFixed rt x 2 = (if x < 0 then ''-'' else '''') @ ip @ ''.'' @ [d1, d2]"
    "ip \<noteq> []" "list_all is_digit ip" "is_digit d1" "is_digit d2"
    by blast
  then show ?thesis
    using two_decimalsI [of ip d1 d2 "if x < 0 then ''-'' else ''''"] by auto
qed

lemma toFixed_zero: "toFixed rt 0 2 = ''0.00''"
  by code_simp


lemma rupee_not_dash: "rupee @ s \<noteq> ''-''"
  by (simp add: rupee_def)

lemma digit_value_digit: "0 \<le> d \<Longrightarrow> d < 10 \<Longrightarrow> digit_value (digit d) = d"
proof -
  assume "0 \<le> d" "d < 10"
  then have "d = 0 \<or> d = 1 \<or> d = 2 \<or> d = 3 \<or> d = 4 \<or> d = 5 \<or> d = 6 \<or> d = 7 \<or> d = 8 \<or> d = 9"
    by arith
  then show ?thesis
    by (elim disjE) (simp_all add: digit_def digit_value_def)
qed

lemma decimal_value_snoc: "decimal_value (s @ [c]) = 10 * decimal_value s + digit_value c"
  by (simp add: decimal_value_def)

lemma decimal_value_digits: "0 \<le> n \<Longrightarrow> decimal_value (digits n) = n"
proof (induction n rule: digits.induct)
  case (1 n)
  show ?case
  proof (cases "n < 10")
    case True
    with "1.prems" show ?thesis
      by (subst digits.simps) (simp add: decimal_value_def digit_value_digit)
  next
    case False
    with "1.prems" have "decimal_value (digits (n div 10)) = n div 10"
      by (intro "1.IH") simp_all
    with False show ?thesis
      by (subst digits.simps) (simp add: decimal_value_snoc digit_value_digit)
  qed
qed

lemma decimal_value_zero_Cons: "decimal_value (CHR ''0'' # s) = decimal_value s"
  by (simp add: decimal_value_def digit_value_def)

lemma decimal_value_zeros: "decimal_value (replicate k (CHR ''0'') @ s) = decimal_value s"
  by (induction k) (simp_all add: decimal_value_zero_Cons)

lemma toFixed_value:
  assumes "\<bar>x\<bar> < 10 ^ 21"
  shows "\<exists>ip fr. toFixed rt x 2 = (if x < 0 then ''-'' else '''') @ ip @ ''.'' @ fr \<and>
           length fr = 2 \<and> decimal_value (ip @ fr) = \<lfloor>\<bar>x\<bar> * 100 + 1 / 2\<rfloor>"
proof -
  define a where "a = (if x < 0 then - x else x)"
  define n where "n = \<lfloor>a * 10 ^ 2 + 1 / 2\<rfloor>"
  define m where "m = (if length (digits n) \<le> 2
      then replicate (3 - length (digits n)) (CHR ''0'') @ digits n else digits n)"
  have a: "a = \<bar>x\<bar>"
    by (simp add: a_def abs_if)
  have small: "\<not> 10 ^ 21 \<le> a"
    using assms by (simp add: a)
  have n0: "0 \<le> n"
    by (simp add: n_def a)
  have tf: "toFixed rt x 2 =
      (if x < 0 then ''-'' else '''') @ take (length m - 2) m @ ''.'' @ drop (length m - 2) m"
    using small by (simp add: toFixed_def Let_def m_def n_def a_def)
  have len: "3 \<le> length m"
    by (auto simp: m_def)
  have val: "decimal_value m = n"
    using n0 by (simp add: m_def decimal_value_zeros decimal_value_digits)
  have "decimal_value (take (length m - 2) m @ drop (length m - 2) m) = \<lfloor>\<bar>x\<bar> * 100 + 1 / 2\<rfloor>"
    using val by (simp add: n_def a)
  moreover have "length (drop (length m - 2) m) = 2"
    using len by simp
  ultimately show ?thesis
    using tf by blast
qed

subsection \<open>Rows that render\<close>

lemma those_map_nth:
  "those (map g xs) = Some ys \<Longrightarrow>
     length ys = length xs \<and> (\<forall>i<length xs. g (xs ! i) = Some (ys ! i))"
proof (induction xs arbitrary: ys)
  case Nil
  then show ?case by simp
next
  case (Cons x xs)
  from Cons.prems obtain y zs where y: "g x = Some y" and zs: "those (map g xs) = Some zs"
    and ys: "ys = y # zs"
    by (auto split: option.splits)
  from Cons.IH [OF zs] y ys show ?case
    by (auto simp: nth_Cons split: nat.splits)
qed

lemma those_map_total:
  "list_all (\<lambda>x. g x \<noteq> None) xs \<Longrightarrow> those (map g xs) = Some (map (\<lambda>x. the (g x)) xs)"
  by (induction xs) auto

lemma format_date_defined: "(format_date rt d p \<noteq> None) = (d \<noteq> None)"
  by (simp add: format_date_def split: option.splits)

lemma table_row_defined: "(table_row rt f tx \<noteq> None) = (Date_parse rt (date tx) \<noteq> None)"
  by (simp add: table_row_def format_date_def split: option.splits)

lemma pdf_row_defined: "(pdf_row rt inc tx \<noteq> None) = (Date_parse rt (date tx) \<noteq> None)"
  by (simp add: pdf_row_def format_date_def split: option.splits)

lemma csv_row_defined: "(csv_row rt inc tx \<noteq> None) = (Date_parse rt (date tx) \<noteq> None)"
  by (simp add: csv_row_def format_date_def split: option.splits)

lemma table_row_cells:
  assumes "table_row rt f tx = Some r"
  shows "billed_cell r = (if 0 < billed tx then rupee @ toFixed rt (billed tx) 2 else ''-'')"
    and "paid_cell r = (if 0 < paid tx then rupee @ toFixed rt (paid tx) 2 else ''-'')"
    and "length r = (if customer f = '''' then 5 else 4)"
    and "r ! 1 = (if customer f = '''' then customerName tx else description tx)"
  using assms
  by (auto simp: table_row_def billed_cell_def paid_cell_def split: option.splits if_splits)

lemma pdf_row_cells:
  assumes "pdf_row rt inc tx = Some r"
  shows "billed_cell r = (if 0 < billed tx then rupee @ toFixed rt (billed tx) 2 else ''-'')"
    and "paid_cell r = (if 0 < paid tx then rupee @ toFixed rt (paid tx) 2 else ''-'')"
    and "length r = (if inc then 5 else 4)"
    and "r ! 1 = (if inc then customerName tx else description tx)"
  using assms
  by (auto simp: pdf_row_def billed_cell_def paid_cell_def split: option.splits if_splits)

lemma csv_row_cells:
  assumes "csv_row rt inc tx = Some r"
  shows "billed_cell r = toFixed rt (billed tx) 2"
    and "paid_cell r = toFixed rt (paid tx) 2"
    and "length r = (if inc then 5 else 4)"
    and "r ! 1 = (if inc then customerName tx else description tx)"
  using assms
  by (auto simp: csv_row_def billed_cell_def paid_cell_def split: option.splits if_splits)

lemma Statements_table:
  assumes "Statements rt ctx f = Some pg" and "table_part pg = TransactionTable h rows"
  shows "h = table_head f"
    and "those (map (table_row rt f) (transactions rt ctx f)) = Some rows"
    and "transactions rt ctx f \<noteq> []"
  using assms
  by (auto simp: Statements_def split: option.splits if_splits)

lemma generatePDF_body:
  assumes "generatePDF rt ctx f = Some doc"
  shows "those (map (pdf_row rt (customer f = '''')) (transactions rt ctx f)) = Some (pdf_body doc)"
    and "pdf_head doc =
      [[''Date''] @ (if customer f = '''' then [''Customer''] else []) @
       [''Description'', ''Billed'', ''Paid'']]"
    and "pdf_footer doc =
      [''Total Amount: '' @ rupee @ toFixed rt (totalBilled rt ctx f) 2,
       ''Received Amount: '' @ rupee @ toFixed rt (totalPaid rt ctx f) 2,
       ''Pending Amount: '' @ rupee @
         toFixed rt (Number_subtract (totalBilled rt ctx f) (totalPaid rt ctx f)) 2]"
    and "pdf_file doc = ''account-statement-'' @ dateFrom f @ ''-to-'' @ dateTo f @ ''.pdf''"
  using assms
  by (auto simp: generatePDF_def Let_def split: option.splits)

subsection \<open>When the renderings succeed\<close>

lemma those_map_defined_iff: "(those (map g xs) \<noteq> None) = list_all (\<lambda>x. g x \<noteq> None) xs"
  by (induction xs) (auto split: option.splits)

lemma Statements_defined:
  "(Statements rt ctx f \<noteq> None) =
     list_all (\<lambda>tx. Date_parse rt (date tx) \<noteq> None) (transactions rt ctx f)"
proof (cases "transactions rt ctx f = []")
  case True
  then show ?thesis by (simp add: Statements_def)
next
  case False
  have "(Statements rt ctx f \<noteq> None) =
      (those (map (table_row rt f) (transactions rt ctx f)) \<noteq> None)"
    using False by (auto simp: Statements_def split: option.splits)
  then show ?thesis
    by (simp only: those_map_defined_iff table_row_defined)
qed

lemma generatePDF_defined:
  "(generatePDF rt ctx f \<noteq> None) =
     (parseISO rt (dateFrom f) \<noteq> None \<and> parseISO rt (dateTo f) \<noteq> None \<and>
      list_all (\<lambda>tx. Date_parse rt (date tx) \<noteq> None) (transactions rt ctx f))"
proof -
  have "(generatePDF rt ctx f \<noteq> None) =
     (format_date rt (parseISO rt (dateFrom f)) ''MMM dd, yyyy'' \<noteq> None \<and>
      format_date rt (parseISO rt (dateTo f)) ''MMM dd, yyyy'' \<noteq> None \<and>
      those (map (pdf_row rt (customer f = '''')) (transactions rt ctx f)) \<noteq> None)"
    by (auto simp: generatePDF_def Let_def split: option.splits)
  then show ?thesis
    by (simp only: those_map_defined_iff pdf_row_defined format_date_defined)
qed

lemma csv_table_defined:
  "(csv_table rt ctx f \<noteq> None) =
     list_all (\<lambda>tx. Date_parse rt (date tx) \<noteq> None) (transactions rt ctx f)"
proof -
  have "(csv_table rt ctx f \<noteq> None) =
      (those (map (csv_row rt (customer f = '''')) (transactions rt ctx f)) \<noteq> None)"
    by (auto simp: csv_table_def split: option.splits)
  then show ?thesis
    by (simp only: those_map_defined_iff csv_row_defined)
qed

lemma Statements_the_table:
  assumes "Statements rt ctx f \<noteq> None" and "transactions rt ctx f \<noteq> []"
  shows "table_part (the (Statements rt ctx f)) =
     TransactionTable (table_head f)
       (the (those (map (table_row rt f) (transactions rt ctx f))))"
  using assms by (auto simp: Statements_def split: option.splits if_splits)

lemma sample_dates_valid:
  "list_all (\<lambda>tx. Date_parse sample_runtime (date tx) \<noteq> None)
     (transactions sample_runtime sample_context sample_filters)"
  by code_simp

lemma sample_window_valid:
  "parseISO sample_runtime (dateFrom sample_filters) \<noteq> None \<and>
   parseISO sample_runtime (dateTo sample_filters) \<noteq> None"
  by code_simp

lemma sample_page_defined:
  "Statements sample_runtime sample_context sample_filters =
     Some (the (Statements sample_runtime sample_context sample_filters))"
  using sample_dates_valid Statements_defined [of sample_runtime sample_context sample_filters]
  by simp

lemma sample_pdf_defined:
  "generatePDF sample_runtime sample_context sample_filters =
     Some (the (generatePDF sample_runtime sample_context sample_filters))"
  using sample_dates_valid sample_window_valid
    generatePDF_defined [of sample_runtime sample_context sample_filters]
  by simp

lemma sample_transactions_length:
  "length (transactions sample_runtime sample_context sample_filters) = 5"
  by code_simp

lemma sample_page_table:
  "table_part (the (Statements sample_runtime sample_context sample_filters)) =
     TransactionTable (table_head sample_filters)
       (the (those (map (table_row sample_runtime sample_filters)
          (transactions sample_runtime sample_context sample_filters))))"
proof (rule Statements_the_table)
  show "Statements sample_runtime sample_context sample_filters \<noteq> None"
    using sample_page_defined by (metis option.distinct(1))
  show "transactions sample_runtime sample_context sample_filters \<noteq> []"
    using sample_transactions_length by auto
qed

lemma Statements_SomeI:
  "list_all (\<lambda>tx. Date_parse rt (date tx) \<noteq> None) (transactions rt ctx f) \<Longrightarrow>
     Statements rt ctx f = Some (the (Statements rt ctx f))"
  using Statements_defined [of rt ctx f] by simp

lemma generatePDF_SomeI:
  "list_all (\<lambda>tx. Date_parse rt (date tx) \<noteq> None) (transactions rt ctx f) \<Longrightarrow>
   parseISO rt (dateFrom f) \<noteq> None \<and> parseISO rt (dateTo f) \<noteq> None \<Longrightarrow>
     generatePDF rt ctx f = Some (the (generatePDF rt ctx f))"
  using generatePDF_defined [of rt ctx f] by simp

lemma csv_table_SomeI:
  "list_all (\<lambda>tx. Date_parse rt (date tx) \<noteq> None) (transactions rt ctx f) \<Longrightarrow>
     csv_table rt ctx f = Some (the (csv_table rt ctx f))"
  using csv_table_defined [of rt ctx f] by simp




text \<open>With the From Date cleared the page and the CSV file are produced and the PDF is not.\<close>

lemma cleared_dates_valid:
  "list_all (\<lambda>tx. Date_parse sample_runtime (date tx) \<noteq> None)
     (transactions sample_runtime sample_context cleared_filters)"
  by code_simp

lemma cleared_transactions_length:
  "length (transactions sample_runtime sample_context cleared_filters) = 2"
  by code_simp

lemmas cleared_page_defined = Statements_SomeI [OF cleared_dates_valid]

lemmas cleared_csv_defined = csv_table_SomeI [OF cleared_dates_valid]

lemma cleared_no_pdf: "generatePDF sample_runtime sample_context cleared_filters = None"
proof -
  have "parseISO sample_runtime (dateFrom cleared_filters) = None"
    by code_simp
  then show ?thesis
    using generatePDF_defined [of sample_runtime sample_context cleared_filters] by simp
qed

lemma cleared_page_table:
  "table_part (the (Statements sample_runtime sample_context cleared_filters)) =
     TransactionTable (table_head cleared_filters)
       (the (those (map (table_row sample_runtime cleared_filters)
          (transactions sample_runtime sample_context cleared_filters))))"
proof (rule Statements_the_table)
  show "Statements sample_runtime sample_context cleared_filters \<noteq> None"
    using cleared_page_defined by (metis option.distinct(1))
  show "transactions sample_runtime sample_context cleared_filters \<noteq> []"
    using cleared_transactions_length by auto
qed

text \<open>In the empty window the page, the PDF and the CSV file are produced.\<close>

lemma empty_transactions: "transactions sample_runtime sample_context empty_filters = []"
  by code_simp

lemma empty_dates_valid:
  "list_all (\<lambda>tx. Date_parse sample_runtime (date tx) \<noteq> None)
     (transactions sample_runtime sample_context empty_filters)"
  by (simp add: empty_transactions)

lemma empty_bounds_valid:
  "parseISO sample_runtime (dateFrom empty_filters) \<noteq> None \<and>
   parseISO sample_runtime (dateTo empty_filters) \<noteq> None"
  by code_simp

lemmas empty_page_defined = Statements_SomeI [OF empty_dates_valid]

lemmas empty_pdf_defined = generatePDF_SomeI [OF empty_dates_valid empty_bounds_valid]

lemmas empty_csv_defined = csv_table_SomeI [OF empty_dates_valid]

subsection \<open>Rows and transactions, side by side\<close>

lemma those_map_list_all2:
  assumes "those (map g xs) = Some ys" and "\<And>x y. x \<in> set xs \<Longrightarrow> g x = Some y \<Longrightarrow> P x y"
  shows "list_all2 P xs ys"
  using assms
proof (induction xs arbitrary: ys)
  case Nil
  then show ?case by simp
next
  case (Cons x xs)
  from Cons.prems(1) obtain y zs where
    y: "g x = Some y" and zs: "those (map g xs) = Some zs" and ys: "ys = y # zs"
    by (auto split: option.splits)
  have "P x y"
    using y by (intro Cons.prems(2)) simp_all
  moreover have "list_all2 P xs zs"
    using zs by (rule Cons.IH) (simp add: Cons.prems(2))
  ultimately show ?case
    by (simp add: ys)
qed

lemma Statements_rows:
  assumes "Statements rt ctx f = Some pg"
    and "\<And>tx r. tx \<in> set (transactions rt ctx f) \<Longrightarrow> table_row rt f tx = Some r \<Longrightarrow> P tx r"
  shows "case table_part pg of
           EmptyState a b \<Rightarrow> transactions rt ctx f = []
         | TransactionTable h rows \<Rightarrow>
             h = table_head f \<and> list_all2 P (transactions rt ctx f) rows"
proof (cases "table_part pg")
  case (EmptyState a b)
  with assms(1) show ?thesis
    by (auto simp: Statements_def split: option.splits if_splits)
next
  case (TransactionTable h rows)
  have "those (map (table_row rt f) (transactions rt ctx f)) = Some rows"
    using assms(1) TransactionTable by (rule Statements_table)
  then have "list_all2 P (transactions rt ctx f) rows"
    using assms(2) by (rule those_map_list_all2)
  moreover have "h = table_head f"
    using assms(1) TransactionTable by (rule Statements_table)
  ultimately show ?thesis
    by (simp add: TransactionTable)
qed

lemma generatePDF_rows:
  assumes "generatePDF rt ctx f = Some doc"
    and "\<And>tx r. tx \<in> set (transactions rt ctx f) \<Longrightarrow>
           pdf_row rt (customer f = '''') tx = Some r \<Longrightarrow> P tx r"
  shows "list_all2 P (transactions rt ctx f) (pdf_body doc)"
proof -
  have "those (map (pdf_row rt (customer f = '''')) (transactions rt ctx f)) = Some (pdf_body doc)"
    using assms(1) by (rule generatePDF_body)
  then show ?thesis
    using assms(2) by (rule those_map_list_all2)
qed

lemma csv_table_Some:
  assumes "csv_table rt ctx f = Some csv"
  shows "\<exists>csvData. those (map (csv_row rt (customer f = '''')) (transactions rt ctx f)) =
           Some csvData \<and>
         csv = csv_headers f # csvData @ [[], totalRow rt ctx f]"
  using assms by (auto simp: csv_table_def split: option.splits)

lemma csv_table_parts:
  assumes "csv_table rt ctx f = Some csv"
    and "\<And>tx r. tx \<in> set (transactions rt ctx f) \<Longrightarrow>
           csv_row rt (customer f = '''') tx = Some r \<Longrightarrow> P tx r"
  shows "list_all2 P (transactions rt ctx f) (take (length (transactions rt ctx f)) (tl csv))"
    and "csv ! 0 = csv_headers f"
    and "last csv = totalRow rt ctx f"
    and "length csv = length (transactions rt ctx f) + 3"
proof -
  from csv_table_Some [OF assms(1)] obtain csvData where
    d: "those (map (csv_row rt (customer f = '''')) (transactions rt ctx f)) = Some csvData"
    and c: "csv = csv_headers f # csvData @ [[], totalRow rt ctx f]"
    by (elim exE conjE)
  have len: "length csvData = length (transactions rt ctx f)"
    using those_map_nth [OF d] by simp
  have "list_all2 P (transactions rt ctx f) csvData"
    using d assms(2) by (rule those_map_list_all2)
  then show "list_all2 P (transactions rt ctx f) (take (length (transactions rt ctx f)) (tl csv))"
    by (simp add: c len)
  show "csv ! 0 = csv_headers f"
    by (simp add: c)
  show "last csv = totalRow rt ctx f"
    by (simp add: c)
  show "length csv = length (transactions rt ctx f) + 3"
    by (simp add: c len)
qed

lemma totalRow_cells:
  "billed_cell (totalRow rt ctx f) = toFixed rt (totalBilled rt ctx f) 2"
  "paid_cell (totalRow rt ctx f) = toFixed rt (totalPaid rt ctx f) 2"
  "length (totalRow rt ctx f) = (if customer f = '''' then 5 else 4)"
  by (simp_all add: totalRow_def billed_cell_def paid_cell_def)

lemma Statements_cards:
  assumes "Statements rt ctx f = Some pg"
  shows "card_total pg = rupee @ toFixed rt (totalBilled rt ctx f) 2"
    and "card_received pg = rupee @ toFixed rt (totalPaid rt ctx f) 2"
    and "card_pending pg =
      rupee @ toFixed rt (Number_subtract (totalBilled rt ctx f) (totalPaid rt ctx f)) 2"
  using assms by (auto simp: Statements_def split: option.splits if_splits)

lemmas sample_csv_defined = csv_table_SomeI [OF sample_dates_valid]

subsection \<open>Amounts in the table and in the PDF body\<close>

lemma amount_cells:
  assumes "billed_cell r = (if 0 < billed tx then rupee @ toFixed rt (billed tx) 2 else ''-'')"
    and "paid_cell r = (if 0 < paid tx then rupee @ toFixed rt (paid tx) 2 else ''-'')"
    and "tx \<in> set (transactions rt ctx f)"
  shows "billed_cell r = (if 0 < billed tx then rupee @ toFixed rt (billed tx) 2 else ''-'') \<and>
     paid_cell r = (if 0 < paid tx then rupee @ toFixed rt (paid tx) 2 else ''-'') \<and>
     (billed_cell r = ''-'') = (billed tx \<le> 0) \<and> (paid_cell r = ''-'') = (paid tx \<le> 0) \<and>
     (type tx = Order \<longrightarrow> paid_cell r = ''-'') \<and>
     (type tx = Payment \<longrightarrow> billed_cell r = ''-'')"
proof -
  have kinds: "(type tx = Order \<longrightarrow> paid tx = 0) \<and> (type tx = Payment \<longrightarrow> billed tx = 0)"
    using assms(3) by (rule transaction_kinds)
  have "(billed_cell r = ''-'') = (billed tx \<le> 0)" "(paid_cell r = ''-'') = (paid tx \<le> 0)"
    using assms(1,2) rupee_not_dash by (auto simp: not_less)
  with assms(1,2) kinds show ?thesis
    by simp
qed

text \<open>
  C10. In the table of the page, whenever the page is rendered, and in the body of the
  PDF, whenever the PDF is generated, the Billed (Paid) cell of the row of a transaction
  is the rupee sign and the amount in \<open>toFixed(2)\<close> when the amount is greater than zero,
  and the dash otherwise, so the cell is the dash exactly when the amount is zero or
  negative; the row of an order has the dash as its Paid cell and the row of a payment
  has the dash as its Billed cell. The rows stand in the order of the transactions.
\<close>

theorem amount_cells_dash:
  "(Statements rt ctx f = Some pg \<longrightarrow>
      (case table_part pg of
         EmptyState a b \<Rightarrow> transactions rt ctx f = []
       | TransactionTable h rows \<Rightarrow>
           list_all2
             (\<lambda>tx r.
                billed_cell r =
                  (if 0 < billed tx then rupee @ toFixed rt (billed tx) 2 else ''-'') \<and>
                paid_cell r = (if 0 < paid tx then rupee @ toFixed rt (paid tx) 2 else ''-'') \<and>
                (billed_cell r = ''-'') = (billed tx \<le> 0) \<and>
                (paid_cell r = ''-'') = (paid tx \<le> 0) \<and>
                (type tx = Order \<longrightarrow> paid_cell r = ''-'') \<and>
                (type tx = Payment \<longrightarrow> billed_cell r = ''-''))
             (transactions rt ctx f) rows)) \<and>
   (generatePDF rt ctx f = Some doc \<longrightarrow>
      list_all2
        (\<lambda>tx r.
           billed_cell r = (if 0 < billed tx then rupee @ toFixed rt (billed tx) 2 else ''-'') \<and>
           paid_cell r = (if 0 < paid tx then rupee @ toFixed rt (paid tx) 2 else ''-'') \<and>
           (billed_cell r = ''-'') = (billed tx \<le> 0) \<and>
           (paid_cell r = ''-'') = (paid tx \<le> 0) \<and>
           (type tx = Order \<longrightarrow> paid_cell r = ''-'') \<and>
           (type tx = Payment \<longrightarrow> billed_cell r = ''-''))
        (transactions rt ctx f) (pdf_body doc))"
proof (intro conjI impI)
  let ?P = "\<lambda>tx r.
      billed_cell r = (if 0 < billed tx then rupee @ toFixed rt (billed tx) 2 else ''-'') \<and>
      paid_cell r = (if 0 < paid tx then rupee @ toFixed rt (paid tx) 2 else ''-'') \<and>
      (billed_cell r = ''-'') = (billed tx \<le> 0) \<and> (paid_cell r = ''-'') = (paid tx \<le> 0) \<and>
      (type tx = Order \<longrightarrow> paid_cell r = ''-'') \<and>
      (type tx = Payment \<longrightarrow> billed_cell r = ''-'')"
  {
    assume pg: "Statements rt ctx f = Some pg"
    have "case table_part pg of
           EmptyState a b \<Rightarrow> transactions rt ctx f = []
         | TransactionTable h rows \<Rightarrow>
             h = table_head f \<and> list_all2 ?P (transactions rt ctx f) rows"
      using pg
    proof (rule Statements_rows)
      fix tx r
      assume "tx \<in> set (transactions rt ctx f)" and "table_row rt f tx = Some r"
      with table_row_cells(1,2) [of rt f tx r] show "?P tx r"
        by (intro amount_cells)
    qed
    then show "case table_part pg of
         EmptyState a b \<Rightarrow> transactions rt ctx f = []
       | TransactionTable h rows \<Rightarrow> list_all2 ?P (transactions rt ctx f) rows"
      by (simp split: table_view.splits)
  }
  {
    assume "generatePDF rt ctx f = Some doc"
    then show "list_all2 ?P (transactions rt ctx f) (pdf_body doc)"
    proof (rule generatePDF_rows)
      fix tx r
      assume "tx \<in> set (transactions rt ctx f)" and "pdf_row rt (customer f = '''') tx = Some r"
      with pdf_row_cells(1,2) [of rt "customer f = ''''" tx r] show "?P tx r"
        by (intro amount_cells)
    qed
  }
qed

theorem amount_cells_dash_witness:
  "Statements sample_runtime sample_context cleared_filters =
     Some (the (Statements sample_runtime sample_context cleared_filters)) \<and>
   generatePDF sample_runtime sample_context cleared_filters = None \<and>
   table_part (the (Statements sample_runtime sample_context cleared_filters)) =
     TransactionTable (table_head cleared_filters)
       (the (those (map (table_row sample_runtime cleared_filters)
          (transactions sample_runtime sample_context cleared_filters)))) \<and>
   type (transactions sample_runtime sample_context cleared_filters ! 1) = Payment \<and>
   billed_cell (the (those (map (table_row sample_runtime cleared_filters)
     (transactions sample_runtime sample_context cleared_filters))) ! 1) = ''-'' \<and>
   generatePDF sample_runtime sample_context sample_filters =
     Some (the (generatePDF sample_runtime sample_context sample_filters)) \<and>
   type (transactions sample_runtime sample_context sample_filters ! 0) = Order \<and>
   billed (transactions sample_runtime sample_context sample_filters ! 0) = 233 / 2 \<and>
   billed_cell (pdf_body (the (generatePDF sample_runtime sample_context sample_filters)) ! 0) =
     rupee @ ''116.50'' \<and>
   paid_cell (pdf_body (the (generatePDF sample_runtime sample_context sample_filters)) ! 0) =
     ''-''"
proof -
  have e0: "type (transactions sample_runtime sample_context cleared_filters ! 1) = Payment"
    by code_simp
  have e1: "type (transactions sample_runtime sample_context sample_filters ! 0) = Order"
    by code_simp
  have e2: "billed (transactions sample_runtime sample_context sample_filters ! 0) = 233 / 2"
    by code_simp
  have e3: "toFixed sample_runtime (233 / 2) 2 = ''116.50''"
    by code_simp
  have n1: "1 < length (transactions sample_runtime sample_context cleared_filters)"
    by (simp add: cleared_transactions_length)
  have n0: "0 < length (transactions sample_runtime sample_context sample_filters)"
    by (simp add: sample_transactions_length)
  note A = amount_cells_dash [of sample_runtime sample_context cleared_filters
      "the (Statements sample_runtime sample_context cleared_filters)",
      THEN conjunct1, THEN mp, OF cleared_page_defined,
      unfolded cleared_page_table table_view.case]
  from list_all2_nthD [OF A n1] e0
  have c: "billed_cell (the (those (map (table_row sample_runtime cleared_filters)
     (transactions sample_runtime sample_context cleared_filters))) ! 1) = ''-''"
    by blast
  note B = amount_cells_dash [of sample_runtime sample_context sample_filters _
      "the (generatePDF sample_runtime sample_context sample_filters)",
      THEN conjunct2, THEN mp, OF sample_pdf_defined]
  note B0 = list_all2_nthD [OF B n0]
  from B0 have "billed_cell
       (pdf_body (the (generatePDF sample_runtime sample_context sample_filters)) ! 0) =
      (if 0 < billed (transactions sample_runtime sample_context sample_filters ! 0)
       then rupee @ toFixed sample_runtime
         (billed (transactions sample_runtime sample_context sample_filters ! 0)) 2
       else ''-'')"
    by (rule conjunct1)
  then have b: "billed_cell
       (pdf_body (the (generatePDF sample_runtime sample_context sample_filters)) ! 0) =
      rupee @ ''116.50''"
    unfolding e2 e3 by simp
  from B0 e1 have p: "paid_cell
       (pdf_body (the (generatePDF sample_runtime sample_context sample_filters)) ! 0) = ''-''"
    by blast
  show ?thesis
    by (intro conjI cleared_page_defined cleared_no_pdf cleared_page_table e0 c
        sample_pdf_defined e1 e2 b p)
qed

subsection \<open>Zero amounts and two decimal places\<close>

lemma zero_cells:
  assumes "billed_cell r = (if 0 < billed tx then rupee @ toFixed rt (billed tx) 2 else ''-'')"
    and "paid_cell r = (if 0 < paid tx then rupee @ toFixed rt (paid tx) 2 else ''-'')"
  shows "(billed tx = 0 \<longrightarrow> billed_cell r = ''-'') \<and> (paid tx = 0 \<longrightarrow> paid_cell r = ''-'') \<and>
     (0 < billed tx \<longrightarrow> billed_cell r = rupee @ toFixed rt (billed tx) 2) \<and>
     (0 < paid tx \<longrightarrow> paid_cell r = rupee @ toFixed rt (paid tx) 2)"
  using assms by simp

text \<open>
  C6, as amended. For every transaction, a billed or paid amount of zero is the dash in
  the table of the page and in the body of the PDF, and \<open>0.00\<close> in the row of the CSV
  file, whose Billed and Paid fields are always the \<open>toFixed(2)\<close> text of the amount;
  an amount above zero is its \<open>toFixed(2)\<close> text after the rupee sign in the table and
  in the PDF. The cards of the page, the footer of the PDF and the totals row of the CSV
  file show \<open>toFixed(2)\<close> texts too. Each of the three holds whenever its rendering is
  produced. The \<open>toFixed(2)\<close> text of every amount of magnitude below \<open>10^21\<close> has
  exactly two decimal places: it is the sign, then the magnitude rounded to the nearest
  hundredth (a tie goes up), with the point before its last two digits.
\<close>

theorem zero_dash_two_decimals:
  "(Statements rt ctx f = Some pg \<longrightarrow>
      card_total pg = rupee @ toFixed rt (totalBilled rt ctx f) 2 \<and>
      card_received pg = rupee @ toFixed rt (totalPaid rt ctx f) 2 \<and>
      card_pending pg =
        rupee @ toFixed rt (Number_subtract (totalBilled rt ctx f) (totalPaid rt ctx f)) 2 \<and>
      (case table_part pg of
         EmptyState a b \<Rightarrow> transactions rt ctx f = []
       | TransactionTable h rows \<Rightarrow>
           list_all2
             (\<lambda>tx r.
                (billed tx = 0 \<longrightarrow> billed_cell r = ''-'') \<and>
                (paid tx = 0 \<longrightarrow> paid_cell r = ''-'') \<and>
                (0 < billed tx \<longrightarrow> billed_cell r = rupee @ toFixed rt (billed tx) 2) \<and>
                (0 < paid tx \<longrightarrow> paid_cell r = rupee @ toFixed rt (paid tx) 2))
             (transactions rt ctx f) rows)) \<and>
   (generatePDF rt ctx f = Some doc \<longrightarrow>
      list_all2
        (\<lambda>tx r.
           (billed tx = 0 \<longrightarrow> billed_cell r = ''-'') \<and>
           (paid tx = 0 \<longrightarrow> paid_cell r = ''-'') \<and>
           (0 < billed tx \<longrightarrow> billed_cell r = rupee @ toFixed rt (billed tx) 2) \<and>
           (0 < paid tx \<longrightarrow> paid_cell r = rupee @ toFixed rt (paid tx) 2))
        (transactions rt ctx f) (pdf_body doc) \<and>
      pdf_footer doc =
        [''Total Amount: '' @ rupee @ toFixed rt (totalBilled rt ctx f) 2,
         ''Received Amount: '' @ rupee @ toFixed rt (totalPaid rt ctx f) 2,
         ''Pending Amount: '' @ rupee @
           toFixed rt (Number_subtract (totalBilled rt ctx f) (totalPaid rt ctx f)) 2]) \<and>
   (csv_table rt ctx f = Some csv \<longrightarrow>
      list_all2
        (\<lambda>tx r.
           billed_cell r = toFixed rt (billed tx) 2 \<and> paid_cell r = toFixed rt (paid tx) 2 \<and>
           (billed tx = 0 \<longrightarrow> billed_cell r = ''0.00'') \<and>
           (paid tx = 0 \<longrightarrow> paid_cell r = ''0.00''))
        (transactions rt ctx f) (take (length (transactions rt ctx f)) (tl csv)) \<and>
      billed_cell (last csv) = toFixed rt (totalBilled rt ctx f) 2 \<and>
      paid_cell (last csv) = toFixed rt (totalPaid rt ctx f) 2) \<and>
   (\<forall>x. \<bar>x\<bar> < 10 ^ 21 \<longrightarrow> two_decimals (toFixed rt x 2) \<and>
      (\<exists>ip fr. toFixed rt x 2 = (if x < 0 then ''-'' else '''') @ ip @ ''.'' @ fr \<and>
         length fr = 2 \<and> decimal_value (ip @ fr) = \<lfloor>\<bar>x\<bar> * 100 + 1 / 2\<rfloor>))"
proof -
  let ?P = "\<lambda>tx r.
      (billed tx = 0 \<longrightarrow> billed_cell r = ''-'') \<and> (paid tx = 0 \<longrightarrow> paid_cell r = ''-'') \<and>
      (0 < billed tx \<longrightarrow> billed_cell r = rupee @ toFixed rt (billed tx) 2) \<and>
      (0 < paid tx \<longrightarrow> paid_cell r = rupee @ toFixed rt (paid tx) 2)"
  let ?Q = "\<lambda>tx r.
      billed_cell r = toFixed rt (billed tx) 2 \<and> paid_cell r = toFixed rt (paid tx) 2 \<and>
      (billed tx = 0 \<longrightarrow> billed_cell r = ''0.00'') \<and> (paid tx = 0 \<longrightarrow> paid_cell r = ''0.00'')"
  have page: "Statements rt ctx f = Some pg \<longrightarrow>
      card_total pg = rupee @ toFixed rt (totalBilled rt ctx f) 2 \<and>
      card_received pg = rupee @ toFixed rt (totalPaid rt ctx f) 2 \<and>
      card_pending pg =
        rupee @ toFixed rt (Number_subtract (totalBilled rt ctx f) (totalPaid rt ctx f)) 2 \<and>
      (case table_part pg of
         EmptyState a b \<Rightarrow> transactions rt ctx f = []
       | TransactionTable h rows \<Rightarrow> list_all2 ?P (transactions rt ctx f) rows)"
  proof (rule impI)
    assume pg: "Statements rt ctx f = Some pg"
    have "case table_part pg of
           EmptyState a b \<Rightarrow> transactions rt ctx f = []
         | TransactionTable h rows \<Rightarrow>
             h = table_head f \<and> list_all2 ?P (transactions rt ctx f) rows"
      using pg
    proof (rule Statements_rows)
      fix tx r
      assume "table_row rt f tx = Some r"
      from table_row_cells(1,2) [OF this] show "?P tx r"
        by (rule zero_cells)
    qed
    then have "case table_part pg of
         EmptyState a b \<Rightarrow> transactions rt ctx f = []
       | TransactionTable h rows \<Rightarrow> list_all2 ?P (transactions rt ctx f) rows"
      by (simp split: table_view.splits)
    with Statements_cards [OF pg] show
      "card_total pg = rupee @ toFixed rt (totalBilled rt ctx f) 2 \<and>
       card_received pg = rupee @ toFixed rt (totalPaid rt ctx f) 2 \<and>
       card_pending pg =
         rupee @ toFixed rt (Number_subtract (totalBilled rt ctx f) (totalPaid rt ctx f)) 2 \<and>
       (case table_part pg of
          EmptyState a b \<Rightarrow> transactions rt ctx f = []
        | TransactionTable h rows \<Rightarrow> list_all2 ?P (transactions rt ctx f) rows)"
      by (intro conjI)
  qed
  have pdf: "generatePDF rt ctx f = Some doc \<longrightarrow>
      list_all2 ?P (transactions rt ctx f) (pdf_body doc) \<and>
      pdf_footer doc =
        [''Total Amount: '' @ rupee @ toFixed rt (totalBilled rt ctx f) 2,
         ''Received Amount: '' @ rupee @ toFixed rt (totalPaid rt ctx f) 2,
         ''Pending Amount: '' @ rupee @
           toFixed rt (Number_subtract (totalBilled rt ctx f) (totalPaid rt ctx f)) 2]"
  proof (rule impI)
    assume doc: "generatePDF rt ctx f = Some doc"
    have "list_all2 ?P (transactions rt ctx f) (pdf_body doc)"
      using doc
    proof (rule generatePDF_rows)
      fix tx r
      assume "pdf_row rt (customer f = '''') tx = Some r"
      from pdf_row_cells(1,2) [OF this] show "?P tx r"
        by (rule zero_cells)
    qed
    with generatePDF_body(3) [OF doc] show
      "list_all2 ?P (transactions rt ctx f) (pdf_body doc) \<and>
       pdf_footer doc =
         [''Total Amount: '' @ rupee @ toFixed rt (totalBilled rt ctx f) 2,
          ''Received Amount: '' @ rupee @ toFixed rt (totalPaid rt ctx f) 2,
          ''Pending Amount: '' @ rupee @
            toFixed rt (Number_subtract (totalBilled rt ctx f) (totalPaid rt ctx f)) 2]"
      by (intro conjI)
  qed
  have csv: "csv_table rt ctx f = Some csv \<longrightarrow>
      list_all2 ?Q (transactions rt ctx f)
        (take (length (transactions rt ctx f)) (tl csv)) \<and>
      billed_cell (last csv) = toFixed rt (totalBilled rt ctx f) 2 \<and>
      paid_cell (last csv) = toFixed rt (totalPaid rt ctx f) 2"
  proof (rule impI)
    assume csv: "csv_table rt ctx f = Some csv"
    have q: "?Q tx r" if "csv_row rt (customer f = '''') tx = Some r" for tx r
      using csv_row_cells(1,2) [OF that] by (simp add: toFixed_zero)
    have "list_all2 ?Q (transactions rt ctx f) (take (length (transactions rt ctx f)) (tl csv))"
      using csv q by (rule csv_table_parts)
    moreover have "last csv = totalRow rt ctx f"
      using csv q by (rule csv_table_parts)
    ultimately show
      "list_all2 ?Q (transactions rt ctx f)
         (take (length (transactions rt ctx f)) (tl csv)) \<and>
       billed_cell (last csv) = toFixed rt (totalBilled rt ctx f) 2 \<and>
       paid_cell (last csv) = toFixed rt (totalPaid rt ctx f) 2"
      by (simp add: totalRow_cells)
  qed
  have two: "\<forall>x. \<bar>x\<bar> < 10 ^ 21 \<longrightarrow> two_decimals (toFixed rt x 2) \<and>
        (\<exists>ip fr. toFixed rt x 2 = (if x < 0 then ''-'' else '''') @ ip @ ''.'' @ fr \<and>
           length fr = 2 \<and> decimal_value (ip @ fr) = \<lfloor>\<bar>x\<bar> * 100 + 1 / 2\<rfloor>)"
    using toFixed_two_decimals [of _ rt] toFixed_value [of _ rt] by blast
  show ?thesis
    by (intro conjI page pdf csv two)
qed

theorem zero_dash_two_decimals_witness:
  "Statements sample_runtime sample_context sample_filters =
     Some (the (Statements sample_runtime sample_context sample_filters)) \<and>
   generatePDF sample_runtime sample_context sample_filters =
     Some (the (generatePDF sample_runtime sample_context sample_filters)) \<and>
   csv_table sample_runtime sample_context sample_filters =
     Some (the (csv_table sample_runtime sample_context sample_filters)) \<and>
   table_part (the (Statements sample_runtime sample_context sample_filters)) =
     TransactionTable (table_head sample_filters)
       (the (those (map (table_row sample_runtime sample_filters)
          (transactions sample_runtime sample_context sample_filters)))) \<and>
   billed (transactions sample_runtime sample_context sample_filters ! 4) = 0 \<and>
   billed_cell (the (those (map (table_row sample_runtime sample_filters)
     (transactions sample_runtime sample_context sample_filters))) ! 4) = ''-'' \<and>
   billed_cell (pdf_body (the (generatePDF sample_runtime sample_context sample_filters)) ! 4) =
     ''-'' \<and>
   billed_cell (take (length (transactions sample_runtime sample_context sample_filters))
     (tl (the (csv_table sample_runtime sample_context sample_filters))) ! 4) = ''0.00'' \<and>
   Statements sample_runtime sample_context cleared_filters =
     Some (the (Statements sample_runtime sample_context cleared_filters)) \<and>
   generatePDF sample_runtime sample_context cleared_filters = None \<and>
   csv_table sample_runtime sample_context cleared_filters =
     Some (the (csv_table sample_runtime sample_context cleared_filters)) \<and>
   table_part (the (Statements sample_runtime sample_context cleared_filters)) =
     TransactionTable (table_head cleared_filters)
       (the (those (map (table_row sample_runtime cleared_filters)
          (transactions sample_runtime sample_context cleared_filters)))) \<and>
   billed (transactions sample_runtime sample_context cleared_filters ! 1) = 0 \<and>
   billed_cell (the (those (map (table_row sample_runtime cleared_filters)
     (transactions sample_runtime sample_context cleared_filters))) ! 1) = ''-'' \<and>
   billed_cell (take (length (transactions sample_runtime sample_context cleared_filters))
     (tl (the (csv_table sample_runtime sample_context cleared_filters))) ! 1) = ''0.00'' \<and>
   Statements sample_runtime sample_context empty_filters =
     Some (the (Statements sample_runtime sample_context empty_filters)) \<and>
   generatePDF sample_runtime sample_context empty_filters =
     Some (the (generatePDF sample_runtime sample_context empty_filters)) \<and>
   csv_table sample_runtime sample_context empty_filters =
     Some (the (csv_table sample_runtime sample_context empty_filters)) \<and>
   card_total (the (Statements sample_runtime sample_context empty_filters)) =
     rupee @ ''0.00'' \<and>
   pdf_footer (the (generatePDF sample_runtime sample_context empty_filters)) =
     [''Total Amount: '' @ rupee @ ''0.00'', ''Received Amount: '' @ rupee @ ''0.00'',
      ''Pending Amount: '' @ rupee @ ''0.00''] \<and>
   billed_cell (last (the (csv_table sample_runtime sample_context empty_filters))) = ''0.00'' \<and>
   two_decimals (toFixed sample_runtime (233 / 2) 2)"
proof -
  have n4: "4 < length (transactions sample_runtime sample_context sample_filters)"
    by (simp add: sample_transactions_length)
  have n1: "1 < length (transactions sample_runtime sample_context cleared_filters)"
    by (simp add: cleared_transactions_length)
  have z4: "billed (transactions sample_runtime sample_context sample_filters ! 4) = 0"
    by code_simp
  have z1: "billed (transactions sample_runtime sample_context cleared_filters ! 1) = 0"
    by code_simp
  have t0: "totalBilled sample_runtime sample_context empty_filters = 0"
    "totalPaid sample_runtime sample_context empty_filters = 0"
    by (simp_all add: totalBilled_def totalPaid_def empty_transactions)
  have d0: "Number_subtract 0 0 = 0"
    by (simp add: Number_subtract_def to_double_zero)
  note S = zero_dash_two_decimals [of sample_runtime sample_context sample_filters
      "the (Statements sample_runtime sample_context sample_filters)"
      "the (generatePDF sample_runtime sample_context sample_filters)"
      "the (csv_table sample_runtime sample_context sample_filters)"]
  note S1 = S [THEN conjunct1, THEN mp, OF sample_page_defined, THEN conjunct2, THEN conjunct2,
      THEN conjunct2, unfolded sample_page_table table_view.case]
  note S2 = S [THEN conjunct2, THEN conjunct1, THEN mp, OF sample_pdf_defined, THEN conjunct1]
  note S3 = S [THEN conjunct2, THEN conjunct2, THEN conjunct1, THEN mp, OF sample_csv_defined,
      THEN conjunct1]
  from list_all2_nthD [OF S1 n4] z4
  have a1: "billed_cell (the (those (map (table_row sample_runtime sample_filters)
     (transactions sample_runtime sample_context sample_filters))) ! 4) = ''-''"
    by blast
  from list_all2_nthD [OF S2 n4] z4
  have a2: "billed_cell
      (pdf_body (the (generatePDF sample_runtime sample_context sample_filters)) ! 4) = ''-''"
    by blast
  from list_all2_nthD [OF S3 n4] z4
  have a3: "billed_cell (take (length (transactions sample_runtime sample_context sample_filters))
     (tl (the (csv_table sample_runtime sample_context sample_filters))) ! 4) = ''0.00''"
    by blast
  from S have "\<forall>x. \<bar>x\<bar> < 10 ^ 21 \<longrightarrow> two_decimals (toFixed sample_runtime x 2)"
    by blast
  then have a4: "two_decimals (toFixed sample_runtime (233 / 2) 2)"
    by simp
  note C = zero_dash_two_decimals [of sample_runtime sample_context cleared_filters
      "the (Statements sample_runtime sample_context cleared_filters)" _
      "the (csv_table sample_runtime sample_context cleared_filters)"]
  note C1 = C [THEN conjunct1, THEN mp, OF cleared_page_defined, THEN conjunct2, THEN conjunct2,
      THEN conjunct2, unfolded cleared_page_table table_view.case]
  note C3 = C [THEN conjunct2, THEN conjunct2, THEN conjunct1, THEN mp, OF cleared_csv_defined,
      THEN conjunct1]
  from list_all2_nthD [OF C1 n1] z1
  have b1: "billed_cell (the (those (map (table_row sample_runtime cleared_filters)
     (transactions sample_runtime sample_context cleared_filters))) ! 1) = ''-''"
    by blast
  from list_all2_nthD [OF C3 n1] z1
  have b3: "billed_cell (take (length (transactions sample_runtime sample_context cleared_filters))
     (tl (the (csv_table sample_runtime sample_context cleared_filters))) ! 1) = ''0.00''"
    by blast
  note E = zero_dash_two_decimals [of sample_runtime sample_context empty_filters
      "the (Statements sample_runtime sample_context empty_filters)"
      "the (generatePDF sample_runtime sample_context empty_filters)"
      "the (csv_table sample_runtime sample_context empty_filters)"]
  note E1 = E [THEN conjunct1, THEN mp, OF empty_page_defined, THEN conjunct1]
  note E2 = E [THEN conjunct2, THEN conjunct1, THEN mp, OF empty_pdf_defined, THEN conjunct2]
  note E3 = E [THEN conjunct2, THEN conjunct2, THEN conjunct1, THEN mp, OF empty_csv_defined,
      THEN conjunct2, THEN conjunct1]
  have c1: "card_total (the (Statements sample_runtime sample_context empty_filters)) =
     rupee @ ''0.00''"
    using E1 by (simp add: t0 toFixed_zero)
  have c2: "pdf_footer (the (generatePDF sample_runtime sample_context empty_filters)) =
     [''Total Amount: '' @ rupee @ ''0.00'', ''Received Amount: '' @ rupee @ ''0.00'',
      ''Pending Amount: '' @ rupee @ ''0.00'']"
    using E2 by (simp add: t0 d0 toFixed_zero)
  have c3: "billed_cell (last (the (csv_table sample_runtime sample_context empty_filters))) =
     ''0.00''"
    using E3 by (simp add: t0 toFixed_zero)
  show ?thesis
    by (intro conjI sample_page_defined sample_pdf_defined sample_csv_defined sample_page_table
        z4 a1 a2 a3 cleared_page_defined cleared_no_pdf cleared_csv_defined cleared_page_table
        z1 b1 b3 empty_page_defined empty_pdf_defined empty_csv_defined c1 c2 c3 a4)
qed

text \<open>
  C6 as stated fails on a window with one order of \<open>10^21\<close> rupees: the Billed field
  of its CSV row, the Billed field of the totals row and the amount of the first card are
  the text \<open>1e+21\<close>, which has no decimal place.
\<close>

theorem large_amount_not_two_decimals:
  "getFilteredOrders large_context (filterParams sample_filters) = [large_order] \<and>
   totalAmount large_order = 10 ^ 21 \<and>
   csv_table sample_runtime large_context sample_filters =
     Some [[''Date'', ''Customer'', ''Description'', ''Billed'', ''Paid''],
           [''2024-01-10'', ''Asha'', ''Order: '', ''1e+21'', ''0.00''],
           [],
           ['''', '''', ''Total'', ''1e+21'', ''0.00'']] \<and>
   \<not> two_decimals
     (billed_cell (the (csv_table sample_runtime large_context sample_filters) ! 1)) \<and>
   \<not> two_decimals
     (billed_cell (last (the (csv_table sample_runtime large_context sample_filters)))) \<and>
   card_total (the (Statements sample_runtime large_context sample_filters)) = rupee @ ''1e+21'' \<and>
   \<not> two_decimals ''1e+21''"
proof -
  have t: "the (csv_table sample_runtime large_context sample_filters) =
     [[''Date'', ''Customer'', ''Description'', ''Billed'', ''Paid''],
      [''2024-01-10'', ''Asha'', ''Order: '', ''1e+21'', ''0.00''],
      [],
      ['''', '''', ''Total'', ''1e+21'', ''0.00'']]"
    by code_simp
  have d: "csv_table sample_runtime large_context sample_filters \<noteq> None"
    by code_simp
  from d t have c: "csv_table sample_runtime large_context sample_filters =
     Some [[''Date'', ''Customer'', ''Description'', ''Billed'', ''Paid''],
           [''2024-01-10'', ''Asha'', ''Order: '', ''1e+21'', ''0.00''],
           [],
           ['''', '''', ''Total'', ''1e+21'', ''0.00'']]"
    by auto
  have rest: "getFilteredOrders large_context (filterParams sample_filters) = [large_order] \<and>
   totalAmount large_order = 10 ^ 21 \<and>
   \<not> two_decimals
     (billed_cell (the (csv_table sample_runtime large_context sample_filters) ! 1)) \<and>
   \<not> two_decimals
     (billed_cell (last (the (csv_table sample_runtime large_context sample_filters)))) \<and>
   card_total (the (Statements sample_runtime large_context sample_filters)) = rupee @ ''1e+21'' \<and>
   \<not> two_decimals ''1e+21''"
    by code_simp
  from c rest show ?thesis
    by (intro conjI) (elim conjE, assumption)+
qed

subsection \<open>The customer column\<close>

text \<open>
  C5. The table of the page, the table of the PDF and the CSV file, each whenever it is
  produced, have the header with the column Customer if and only if the customer of the
  filter is the empty string. With the column, every row has five cells and the second
  one is the customer name of its transaction; without it, every row has four cells and
  the second one is the description. The page shows no table when there is no
  transaction; the PDF and the CSV file have their header then too.
\<close>

theorem customer_column_iff:
  "(Statements rt ctx f = Some pg \<longrightarrow>
      (case table_part pg of
         EmptyState a b \<Rightarrow> transactions rt ctx f = []
       | TransactionTable h rows \<Rightarrow>
           (''Customer'' \<in> set h) = (customer f = '''') \<and>
           h = (if customer f = ''''
                then [''Date'', ''Customer'', ''Description'', ''Billed'', ''Paid'']
                else [''Date'', ''Description'', ''Billed'', ''Paid'']) \<and>
           list_all2
             (\<lambda>tx r. if customer f = '''' then length r = 5 \<and> r ! 1 = customerName tx
                else length r = 4 \<and> r ! 1 = description tx)
             (transactions rt ctx f) rows)) \<and>
   (generatePDF rt ctx f = Some doc \<longrightarrow>
      (''Customer'' \<in> set (hd (pdf_head doc))) = (customer f = '''') \<and>
      pdf_head doc =
        [if customer f = ''''
         then [''Date'', ''Customer'', ''Description'', ''Billed'', ''Paid'']
         else [''Date'', ''Description'', ''Billed'', ''Paid'']] \<and>
      list_all2
        (\<lambda>tx r. if customer f = '''' then length r = 5 \<and> r ! 1 = customerName tx
           else length r = 4 \<and> r ! 1 = description tx)
        (transactions rt ctx f) (pdf_body doc)) \<and>
   (csv_table rt ctx f = Some csv \<longrightarrow>
      (''Customer'' \<in> set (csv ! 0)) = (customer f = '''') \<and>
      csv ! 0 =
        (if customer f = ''''
         then [''Date'', ''Customer'', ''Description'', ''Billed'', ''Paid'']
         else [''Date'', ''Description'', ''Billed'', ''Paid'']) \<and>
      list_all2
        (\<lambda>tx r. if customer f = '''' then length r = 5 \<and> r ! 1 = customerName tx
           else length r = 4 \<and> r ! 1 = description tx)
        (transactions rt ctx f) (take (length (transactions rt ctx f)) (tl csv)) \<and>
      length (last csv) = (if customer f = '''' then 5 else 4))"
proof -
  let ?P = "\<lambda>tx r. if customer f = '''' then length r = 5 \<and> r ! 1 = customerName tx
      else length r = 4 \<and> r ! 1 = description tx"
  let ?h = "if customer f = ''''
      then [''Date'', ''Customer'', ''Description'', ''Billed'', ''Paid'']
      else [''Date'', ''Description'', ''Billed'', ''Paid'']"
  have page: "Statements rt ctx f = Some pg \<longrightarrow>
      (case table_part pg of
         EmptyState a b \<Rightarrow> transactions rt ctx f = []
       | TransactionTable h rows \<Rightarrow>
           (''Customer'' \<in> set h) = (customer f = '''') \<and> h = ?h \<and>
           list_all2 ?P (transactions rt ctx f) rows)"
  proof (rule impI)
    assume pg: "Statements rt ctx f = Some pg"
    have "case table_part pg of
           EmptyState a b \<Rightarrow> transactions rt ctx f = []
         | TransactionTable h rows \<Rightarrow>
             h = table_head f \<and> list_all2 ?P (transactions rt ctx f) rows"
      using pg
    proof (rule Statements_rows)
      fix tx r
      assume "table_row rt f tx = Some r"
      from table_row_cells(3,4) [OF this] show "?P tx r"
        by simp
    qed
    then show "case table_part pg of
         EmptyState a b \<Rightarrow> transactions rt ctx f = []
       | TransactionTable h rows \<Rightarrow>
           (''Customer'' \<in> set h) = (customer f = '''') \<and> h = ?h \<and>
           list_all2 ?P (transactions rt ctx f) rows"
      by (auto simp: table_head_def split: table_view.splits)
  qed
  have pdf: "generatePDF rt ctx f = Some doc \<longrightarrow>
      (''Customer'' \<in> set (hd (pdf_head doc))) = (customer f = '''') \<and>
      pdf_head doc = [?h] \<and> list_all2 ?P (transactions rt ctx f) (pdf_body doc)"
  proof (rule impI)
    assume doc: "generatePDF rt ctx f = Some doc"
    have rows: "list_all2 ?P (transactions rt ctx f) (pdf_body doc)"
      using doc
    proof (rule generatePDF_rows)
      fix tx r
      assume "pdf_row rt (customer f = '''') tx = Some r"
      from pdf_row_cells(3,4) [OF this] show "?P tx r"
        by simp
    qed
    have head: "pdf_head doc = [?h]"
      using generatePDF_body(2) [OF doc] by simp
    from head rows show "(''Customer'' \<in> set (hd (pdf_head doc))) = (customer f = '''') \<and>
      pdf_head doc = [?h] \<and> list_all2 ?P (transactions rt ctx f) (pdf_body doc)"
      by simp
  qed
  have csv: "csv_table rt ctx f = Some csv \<longrightarrow>
      (''Customer'' \<in> set (csv ! 0)) = (customer f = '''') \<and> csv ! 0 = ?h \<and>
      list_all2 ?P (transactions rt ctx f) (take (length (transactions rt ctx f)) (tl csv)) \<and>
      length (last csv) = (if customer f = '''' then 5 else 4)"
  proof (rule impI)
    assume csv: "csv_table rt ctx f = Some csv"
    have q: "?P tx r" if "csv_row rt (customer f = '''') tx = Some r" for tx r
      using csv_row_cells(3,4) [OF that] by simp
    have rows: "list_all2 ?P (transactions rt ctx f)
        (take (length (transactions rt ctx f)) (tl csv))"
      using csv q by (rule csv_table_parts)
    have head: "csv ! 0 = ?h"
      using csv_table_parts(2) [OF csv q] by (simp add: csv_headers_def)
    have total: "length (last csv) = (if customer f = '''' then 5 else 4)"
      using csv_table_parts(3) [OF csv q] by (simp add: totalRow_cells)
    from head rows total show "(''Customer'' \<in> set (csv ! 0)) = (customer f = '''') \<and>
      csv ! 0 = ?h \<and>
      list_all2 ?P (transactions rt ctx f) (take (length (transactions rt ctx f)) (tl csv)) \<and>
      length (last csv) = (if customer f = '''' then 5 else 4)"
      by simp
  qed
  show ?thesis
    by (intro conjI page pdf csv)
qed

theorem customer_column_iff_witness:
  "customer sample_filters = '''' \<and>
   Statements sample_runtime sample_context sample_filters =
     Some (the (Statements sample_runtime sample_context sample_filters)) \<and>
   generatePDF sample_runtime sample_context sample_filters =
     Some (the (generatePDF sample_runtime sample_context sample_filters)) \<and>
   csv_table sample_runtime sample_context sample_filters =
     Some (the (csv_table sample_runtime sample_context sample_filters)) \<and>
   table_part (the (Statements sample_runtime sample_context sample_filters)) =
     TransactionTable [''Date'', ''Customer'', ''Description'', ''Billed'', ''Paid'']
       (the (those (map (table_row sample_runtime sample_filters)
          (transactions sample_runtime sample_context sample_filters)))) \<and>
   pdf_head (the (generatePDF sample_runtime sample_context sample_filters)) =
     [[''Date'', ''Customer'', ''Description'', ''Billed'', ''Paid'']] \<and>
   the (csv_table sample_runtime sample_context sample_filters) ! 0 =
     [''Date'', ''Customer'', ''Description'', ''Billed'', ''Paid''] \<and>
   customer cleared_filters = ''c2'' \<and>
   Statements sample_runtime sample_context cleared_filters =
     Some (the (Statements sample_runtime sample_context cleared_filters)) \<and>
   generatePDF sample_runtime sample_context cleared_filters = None \<and>
   csv_table sample_runtime sample_context cleared_filters =
     Some (the (csv_table sample_runtime sample_context cleared_filters)) \<and>
   table_part (the (Statements sample_runtime sample_context cleared_filters)) =
     TransactionTable [''Date'', ''Description'', ''Billed'', ''Paid'']
       (the (those (map (table_row sample_runtime cleared_filters)
          (transactions sample_runtime sample_context cleared_filters)))) \<and>
   length (the (those (map (table_row sample_runtime cleared_filters)
     (transactions sample_runtime sample_context cleared_filters))) ! 1) = 4 \<and>
   the (csv_table sample_runtime sample_context cleared_filters) ! 0 =
     [''Date'', ''Description'', ''Billed'', ''Paid''] \<and>
   customer empty_filters = ''c3'' \<and>
   transactions sample_runtime sample_context empty_filters = [] \<and>
   generatePDF sample_runtime sample_context empty_filters =
     Some (the (generatePDF sample_runtime sample_context empty_filters)) \<and>
   csv_table sample_runtime sample_context empty_filters =
     Some (the (csv_table sample_runtime sample_context empty_filters)) \<and>
   pdf_head (the (generatePDF sample_runtime sample_context empty_filters)) =
     [[''Date'', ''Description'', ''Billed'', ''Paid'']] \<and>
   the (csv_table sample_runtime sample_context empty_filters) ! 0 =
     [''Date'', ''Description'', ''Billed'', ''Paid''] \<and>
   length (last (the (csv_table sample_runtime sample_context empty_filters))) = 4"
proof -
  have e1: "customer sample_filters = ''''"
    by code_simp
  have e2: "customer cleared_filters = ''c2''"
    by code_simp
  have e3: "customer empty_filters = ''c3''"
    by code_simp
  have n2: "customer cleared_filters \<noteq> ''''"
    by (simp add: e2)
  have n3: "customer empty_filters \<noteq> ''''"
    by (simp add: e3)
  have n1: "1 < length (transactions sample_runtime sample_context cleared_filters)"
    by (simp add: cleared_transactions_length)
  note S = customer_column_iff [of sample_runtime sample_context sample_filters
      "the (Statements sample_runtime sample_context sample_filters)"
      "the (generatePDF sample_runtime sample_context sample_filters)"
      "the (csv_table sample_runtime sample_context sample_filters)"]
  note S1 = S [THEN conjunct1, THEN mp, OF sample_page_defined,
      unfolded sample_page_table table_view.case]
  note S2 = S [THEN conjunct2, THEN conjunct1, THEN mp, OF sample_pdf_defined]
  note S3 = S [THEN conjunct2, THEN conjunct2, THEN mp, OF sample_csv_defined]
  from S1 e1 have "table_head sample_filters =
      [''Date'', ''Customer'', ''Description'', ''Billed'', ''Paid'']"
    by simp
  with sample_page_table
  have a1: "table_part (the (Statements sample_runtime sample_context sample_filters)) =
     TransactionTable [''Date'', ''Customer'', ''Description'', ''Billed'', ''Paid'']
       (the (those (map (table_row sample_runtime sample_filters)
          (transactions sample_runtime sample_context sample_filters))))"
    by simp
  from S2 e1 have a2: "pdf_head (the (generatePDF sample_runtime sample_context sample_filters)) =
     [[''Date'', ''Customer'', ''Description'', ''Billed'', ''Paid'']]"
    by simp
  from S3 e1 have a3: "the (csv_table sample_runtime sample_context sample_filters) ! 0 =
     [''Date'', ''Customer'', ''Description'', ''Billed'', ''Paid'']"
    by simp
  note C = customer_column_iff [of sample_runtime sample_context cleared_filters
      "the (Statements sample_runtime sample_context cleared_filters)" _
      "the (csv_table sample_runtime sample_context cleared_filters)"]
  note C1 = C [THEN conjunct1, THEN mp, OF cleared_page_defined,
      unfolded cleared_page_table table_view.case]
  note C3 = C [THEN conjunct2, THEN conjunct2, THEN mp, OF cleared_csv_defined]
  from C1 n2 have "table_head cleared_filters = [''Date'', ''Description'', ''Billed'', ''Paid'']"
    by simp
  with cleared_page_table
  have b1: "table_part (the (Statements sample_runtime sample_context cleared_filters)) =
     TransactionTable [''Date'', ''Description'', ''Billed'', ''Paid'']
       (the (those (map (table_row sample_runtime cleared_filters)
          (transactions sample_runtime sample_context cleared_filters))))"
    by simp
  from C1 have "list_all2
     (\<lambda>tx r. if customer cleared_filters = '''' then length r = 5 \<and> r ! 1 = customerName tx
        else length r = 4 \<and> r ! 1 = description tx)
     (transactions sample_runtime sample_context cleared_filters)
     (the (those (map (table_row sample_runtime cleared_filters)
        (transactions sample_runtime sample_context cleared_filters))))"
    by (elim conjE)
  from list_all2_nthD [OF this n1] n2
  have b2: "length (the (those (map (table_row sample_runtime cleared_filters)
     (transactions sample_runtime sample_context cleared_filters))) ! 1) = 4"
    by simp
  from C3 n2 have b3: "the (csv_table sample_runtime sample_context cleared_filters) ! 0 =
     [''Date'', ''Description'', ''Billed'', ''Paid'']"
    by simp
  note E = customer_column_iff [of sample_runtime sample_context empty_filters _
      "the (generatePDF sample_runtime sample_context empty_filters)"
      "the (csv_table sample_runtime sample_context empty_filters)"]
  note E2 = E [THEN conjunct2, THEN conjunct1, THEN mp, OF empty_pdf_defined]
  note E3 = E [THEN conjunct2, THEN conjunct2, THEN mp, OF empty_csv_defined]
  from E2 n3 have c2: "pdf_head (the (generatePDF sample_runtime sample_context empty_filters)) =
     [[''Date'', ''Description'', ''Billed'', ''Paid'']]"
    by simp
  from E3 n3 have c3: "the (csv_table sample_runtime sample_context empty_filters) ! 0 =
     [''Date'', ''Description'', ''Billed'', ''Paid'']"
    and c4: "length (last (the (csv_table sample_runtime sample_context empty_filters))) = 4"
    by simp_all
  show ?thesis
    by (intro conjI e1 sample_page_defined sample_pdf_defined sample_csv_defined a1 a2 a3
        e2 cleared_page_defined cleared_no_pdf cleared_csv_defined b1 b2 b3
        e3 empty_transactions empty_pdf_defined empty_csv_defined c2 c3 c4)
qed

subsection \<open>The pending amount\<close>





subsection \<open>The empty window\<close>

text \<open>
  C9. When the window yields no order and no payment, the transaction list is empty, the
  page is rendered, with the state \<open>No transactions found\<close> in place of the table, and
  the three totals on it are 0.00.
\<close>

theorem empty_window:
  assumes "getFilteredOrders ctx (filterParams f) = []"
    and "getFilteredPayments ctx (filterParams f) = []"
  shows "transactions rt ctx f = [] \<and> totalBilled rt ctx f = 0 \<and> totalPaid rt ctx f = 0 \<and>
     Statements rt ctx f =
       Some \<lparr>card_total = rupee @ ''0.00'', card_received = rupee @ ''0.00'',
             card_pending = rupee @ ''0.00'',
             table_part = EmptyState ''No transactions found''
               ''Try adjusting your filters to see results''\<rparr>"
proof -
  have t: "transactions rt ctx f = []"
    using assms by (simp add: transactions_def combined_def Array_sort_def)
  then have tb: "totalBilled rt ctx f = 0" and tp: "totalPaid rt ctx f = 0"
    by (simp_all add: totalBilled_def totalPaid_def)
  from t tb tp show ?thesis
    by (simp add: Statements_def toFixed_zero Number_subtract_def to_double_zero)
qed

theorem empty_window_witness:
  "getFilteredOrders sample_context (filterParams empty_filters) = [] \<and>
   getFilteredPayments sample_context (filterParams empty_filters) = [] \<and>
   transactions sample_runtime sample_context empty_filters = [] \<and>
   table_part (the (Statements sample_runtime sample_context empty_filters)) =
     EmptyState ''No transactions found'' ''Try adjusting your filters to see results'' \<and>
   card_pending (the (Statements sample_runtime sample_context empty_filters)) = rupee @ ''0.00''"
proof -
  have h1: "getFilteredOrders sample_context (filterParams empty_filters) = []"
    by code_simp
  have h2: "getFilteredPayments sample_context (filterParams empty_filters) = []"
    by code_simp
  from empty_window [OF h1 h2, of sample_runtime] h1 h2 show ?thesis
    by simp
qed

subsection \<open>The quick periods and the date inputs\<close>

text \<open>
  C7. The quick period \<open>today\<close> sets both bounds to the current date, \<open>week\<close> sets
  them to the start and the end of the week of the current date, \<open>month\<close> to the start
  and the end of its month; the new bounds do not depend on the bounds set before, and
  the customer is kept. Editing one date input sets that bound and the period
  \<open>custom\<close>, and leaves the other bound and the customer as they were.
\<close>

theorem quick_periods:
  "handlePeriodChange rt today f ''today'' =
     \<lparr>customer = customer f, dateFrom = format rt today ''yyyy-MM-dd'',
      dateTo = format rt today ''yyyy-MM-dd'', period = ''today''\<rparr> \<and>
   handlePeriodChange rt today f ''week'' =
     \<lparr>customer = customer f, dateFrom = format rt (startOfWeek rt today) ''yyyy-MM-dd'',
      dateTo = format rt (endOfWeek rt today) ''yyyy-MM-dd'', period = ''week''\<rparr> \<and>
   handlePeriodChange rt today f ''month'' =
     \<lparr>customer = customer f, dateFrom = format rt (startOfMonth rt today) ''yyyy-MM-dd'',
      dateTo = format rt (endOfMonth rt today) ''yyyy-MM-dd'', period = ''month''\<rparr> \<and>
   onChange_dateFrom f v =
     \<lparr>customer = customer f, dateFrom = v, dateTo = dateTo f, period = ''custom''\<rparr> \<and>
   onChange_dateTo f v =
     \<lparr>customer = customer f, dateFrom = dateFrom f, dateTo = v, period = ''custom''\<rparr>"
  by (cases f) (simp add: handlePeriodChange_def onChange_dateFrom_def onChange_dateTo_def)

subsection \<open>The order history of a customer\<close>

lemma order_card_of_Some:
  assumes "order_card_of rt ord = Some oc"
  shows "card_title oc =
      ''Order on '' @ format rt (the (parseISO rt (orderDate ord))) ''MMM dd, yyyy''"
    and "card_status oc = status ord"
    and "card_items oc = map (item_line rt) (items ord)"
    and "card_order_total oc = ''Order Total: '' @ rupee @ toFixed rt (totalAmount ord) 2"
  using assms
  by (auto simp: order_card_of_def format_date_def split: option.splits)

lemma order_card_of_defined:
  "(order_card_of rt ord \<noteq> None) = (parseISO rt (orderDate ord) \<noteq> None)"
  by (simp add: order_card_of_def format_date_def split: option.splits)

lemma customerOrders_mset:
  "mset (customerOrders rt ctx c) =
     mset (filter (\<lambda>ord. customerId ord = customer_id c) (orders ctx))"
  by (simp add: customerOrders_def Array_sort_mset)

lemma customerOrders_set:
  "set (customerOrders rt ctx c) = {ord \<in> set (orders ctx). customerId ord = customer_id c}"
  by (simp add: customerOrders_def Array_sort_set)

lemma customerOrders_descending:
  assumes "list_all (\<lambda>ord. parseISO rt (orderDate ord) \<noteq> None)
             (filter (\<lambda>ord. customerId ord = customer_id c) (orders ctx))"
  shows "sorted_wrt (\<lambda>a b. the (parseISO rt (orderDate b)) \<le> the (parseISO rt (orderDate a)))
           (customerOrders rt ctx c)"
proof -
  let ?xs = "filter (\<lambda>ord. customerId ord = customer_id c) (orders ctx)"
  let ?g = "\<lambda>ord. - the (parseISO rt (orderDate ord))"
  have cmp: "by_orderDate_desc rt a b = Some (?g a - ?g b)"
    if "a \<in> set ?xs" "b \<in> set ?xs" for a b
  proof -
    from that assms have "parseISO rt (orderDate a) \<noteq> None" "parseISO rt (orderDate b) \<noteq> None"
      by (auto simp: list_all_iff)
    then show ?thesis
      by (auto simp: by_orderDate_desc_def time_diff_Some)
  qed
  have "customerOrders rt ctx c = sort_key ?g ?xs"
    unfolding customerOrders_def by (rule Array_sort_sort_key) (rule cmp)
  then have "sorted (map ?g (customerOrders rt ctx c))"
    by simp
  then show ?thesis
    by (simp add: sorted_map)
qed

lemma order_card_of_lines:
  assumes "order_card_of rt ord = Some oc"
  shows "card_items oc =
     map (\<lambda>i. (Number_toString rt (quantity i) @ ''x '' @ productName i @ '' (@ '' @ rupee @
                  toFixed rt (price i) 2 @ '')'',
                rupee @ toFixed rt (Number_multiply (price i) (quantity i)) 2))
       (items ord)"
  using order_card_of_Some(3) [OF assms] by (simp add: item_line_def)

lemma order_history_defined:
  "(order_history rt ctx c \<noteq> None) =
     list_all (\<lambda>ord. parseISO rt (orderDate ord) \<noteq> None)
       (filter (\<lambda>ord. customerId ord = customer_id c) (orders ctx))"
proof -
  have "(order_history rt ctx c \<noteq> None) =
      (those (map (order_card_of rt) (customerOrders rt ctx c)) \<noteq> None)"
    by (cases "customerOrders rt ctx c") (auto simp: order_history_def)
  also have "\<dots> = list_all (\<lambda>ord. parseISO rt (orderDate ord) \<noteq> None) (customerOrders rt ctx c)"
    by (simp only: those_map_defined_iff order_card_of_defined)
  also have "\<dots> = list_all (\<lambda>ord. parseISO rt (orderDate ord) \<noteq> None)
       (filter (\<lambda>ord. customerId ord = customer_id c) (orders ctx))"
    using customerOrders_mset by (rule list_all_reorder)
  finally show ?thesis .
qed

text \<open>
  C8. The orders of the history are exactly the orders of the data context whose
  \<open>customerId\<close> is the id of the customer, each as often as it occurs there. The view
  is produced when, and only when, \<open>parseISO\<close> reads the dates of these orders; they
  stand most recent first then, and the view is the message for a customer with no
  order, and otherwise one card per order, in that order, with the date of the order,
  its status, one line per item and the \<open>toFixed(2)\<close> text of its \<open>totalAmount\<close>.
  The line of an item is its quantity, \<open>x\<close>, its name and its price in \<open>toFixed(2)\<close>,
  and the \<open>toFixed(2)\<close> text of the product of the price and the quantity, which is a
  double that no other double is nearer to the exact product.
\<close>

theorem customer_history:
  "mset (customerOrders rt ctx c) =
     mset (filter (\<lambda>ord. customerId ord = customer_id c) (orders ctx)) \<and>
   (order_history rt ctx c \<noteq> None) =
     list_all (\<lambda>ord. parseISO rt (orderDate ord) \<noteq> None)
       (filter (\<lambda>ord. customerId ord = customer_id c) (orders ctx)) \<and>
   (list_all (\<lambda>ord. parseISO rt (orderDate ord) \<noteq> None)
      (filter (\<lambda>ord. customerId ord = customer_id c) (orders ctx)) \<longrightarrow>
    sorted_wrt (\<lambda>a b. the (parseISO rt (orderDate b)) \<le> the (parseISO rt (orderDate a)))
      (customerOrders rt ctx c) \<and>
    (\<exists>view. order_history rt ctx c = Some view \<and>
       (case view of
          NoOrders msg \<Rightarrow>
            customerOrders rt ctx c = [] \<and> msg = ''No orders placed by this customer yet.''
        | OrderHistory cards \<Rightarrow>
            customerOrders rt ctx c \<noteq> [] \<and>
            list_all2
              (\<lambda>ord oc.
                 card_title oc =
                   ''Order on '' @
                   format rt (the (parseISO rt (orderDate ord))) ''MMM dd, yyyy'' \<and>
                 card_status oc = status ord \<and>
                 card_items oc =
                   map (\<lambda>i. (Number_toString rt (quantity i) @ ''x '' @ productName i @
                                '' (@ '' @ rupee @ toFixed rt (price i) 2 @ '')'',
                              rupee @ toFixed rt (Number_multiply (price i) (quantity i)) 2))
                     (items ord) \<and>
                 card_order_total oc =
                   ''Order Total: '' @ rupee @ toFixed rt (totalAmount ord) 2)
              (customerOrders rt ctx c) cards))) \<and>
   (\<forall>x y d. to_double d = d \<longrightarrow>
      to_double (Number_multiply x y) = Number_multiply x y \<and>
      \<bar>Number_multiply x y - x * y\<bar> \<le> \<bar>d - x * y\<bar>)"
proof -
  let ?co = "customerOrders rt ctx c"
  let ?P = "\<lambda>ord oc.
      card_title oc =
        ''Order on '' @ format rt (the (parseISO rt (orderDate ord))) ''MMM dd, yyyy'' \<and>
      card_status oc = status ord \<and>
      card_items oc =
        map (\<lambda>i. (Number_toString rt (quantity i) @ ''x '' @ productName i @
                     '' (@ '' @ rupee @ toFixed rt (price i) 2 @ '')'',
                   rupee @ toFixed rt (Number_multiply (price i) (quantity i)) 2))
          (items ord) \<and>
      card_order_total oc = ''Order Total: '' @ rupee @ toFixed rt (totalAmount ord) 2"
  have view: "\<exists>view. order_history rt ctx c = Some view \<and>
        (case view of
           NoOrders msg \<Rightarrow> ?co = [] \<and> msg = ''No orders placed by this customer yet.''
         | OrderHistory cards \<Rightarrow> ?co \<noteq> [] \<and> list_all2 ?P ?co cards)"
    if valid: "list_all (\<lambda>ord. parseISO rt (orderDate ord) \<noteq> None)
        (filter (\<lambda>ord. customerId ord = customer_id c) (orders ctx))"
  proof (cases "?co = []")
    case True
    then have "order_history rt ctx c = Some (NoOrders ''No orders placed by this customer yet.'')"
      by (simp add: order_history_def)
    with True show ?thesis
      by simp
  next
    case False
    have "list_all (\<lambda>ord. order_card_of rt ord \<noteq> None) ?co"
      using valid
      by (simp only: list_all_iff customerOrders_set order_card_of_defined set_filter)
    then have cards: "those (map (order_card_of rt) ?co) =
        Some (map (\<lambda>ord. the (order_card_of rt ord)) ?co)"
      by (rule those_map_total)
    then have h: "order_history rt ctx c =
        Some (OrderHistory (map (\<lambda>ord. the (order_card_of rt ord)) ?co))"
      using False by (simp add: order_history_def)
    have "list_all2 ?P ?co (map (\<lambda>ord. the (order_card_of rt ord)) ?co)"
      using cards
    proof (rule those_map_list_all2)
      fix x y
      assume "order_card_of rt x = Some y"
      from order_card_of_Some(1,2,4) [OF this] order_card_of_lines [OF this]
      show "?P x y"
        by (intro conjI)
    qed
    with h False show ?thesis
      by simp
  qed
  have dates: "list_all (\<lambda>ord. parseISO rt (orderDate ord) \<noteq> None)
      (filter (\<lambda>ord. customerId ord = customer_id c) (orders ctx)) \<longrightarrow>
    sorted_wrt (\<lambda>a b. the (parseISO rt (orderDate b)) \<le> the (parseISO rt (orderDate a))) ?co \<and>
    (\<exists>view. order_history rt ctx c = Some view \<and>
        (case view of
           NoOrders msg \<Rightarrow> ?co = [] \<and> msg = ''No orders placed by this customer yet.''
         | OrderHistory cards \<Rightarrow> ?co \<noteq> [] \<and> list_all2 ?P ?co cards))"
    using customerOrders_descending [of rt c ctx] view by (intro impI conjI)
  have product: "\<forall>x y d. to_double d = d \<longrightarrow>
      to_double (Number_multiply x y) = Number_multiply x y \<and>
      \<bar>Number_multiply x y - x * y\<bar> \<le> \<bar>d - x * y\<bar>"
    unfolding Number_multiply_def by (intro allI impI conjI to_double_idem to_double_nearest)
  show ?thesis
    by (intro conjI customerOrders_mset order_history_defined dates product)
qed

theorem customer_history_witness:
  "list_all (\<lambda>ord. parseISO sample_runtime (orderDate ord) \<noteq> None)
     (filter (\<lambda>ord. customerId ord = customer_id (customers history_context ! 1))
        (orders history_context)) \<and>
   map order_id (orders history_context) = [''o1'', ''o2'', ''o3'', ''o4''] \<and>
   map order_id (customerOrders sample_runtime history_context (customers history_context ! 1)) =
     [''o4'', ''o2''] \<and>
   map orderDate (customerOrders sample_runtime history_context (customers history_context ! 1)) =
     [''2024-01-10'', ''2024-01-05''] \<and>
   sorted_wrt (\<lambda>a b. the (parseISO sample_runtime (orderDate b)) \<le>
        the (parseISO sample_runtime (orderDate a)))
     (customerOrders sample_runtime history_context (customers history_context ! 1)) \<and>
   items (customerOrders sample_runtime history_context (customers history_context ! 1) ! 0) =
     [\<lparr>productName = ''Paneer'', price = 5804014019773727 / 562949953421312,
       quantity = 3 / 2\<rparr>] \<and>
   toFixed sample_runtime (5804014019773727 / 562949953421312 * (3 / 2)) 2 = ''15.47'' \<and>
   (\<exists>cards.
      order_history sample_runtime history_context (customers history_context ! 1) =
        Some (OrderHistory cards) \<and>
      length cards = 2 \<and>
      card_title (cards ! 0) = ''Order on Jan 10, 2024'' \<and>
      card_status (cards ! 0) = ''delivered'' \<and>
      card_items (cards ! 0) =
        [(''1.5x Paneer (@ '' @ rupee @ ''10.31)'', rupee @ ''15.46'')] \<and>
      card_order_total (cards ! 0) = ''Order Total: '' @ rupee @ ''15.46'' \<and>
      card_items (cards ! 1) =
        [(''1x Ghee (@ '' @ rupee @ ''40.00)'', rupee @ ''40.00''),
         (''3x Curd (@ '' @ rupee @ ''25.50)'', rupee @ ''76.50'')]) \<and>
   to_double 15 = 15 \<and>
   \<bar>Number_multiply (5804014019773727 / 562949953421312) (3 / 2) -
      5804014019773727 / 562949953421312 * (3 / 2)\<bar> \<le>
   \<bar>15 - 5804014019773727 / 562949953421312 * (3 / 2 :: rat)\<bar>"
proof -
  let ?c = "customers history_context ! 1"
  let ?co = "customerOrders sample_runtime history_context ?c"
  have h: "list_all (\<lambda>ord. parseISO sample_runtime (orderDate ord) \<noteq> None)
     (filter (\<lambda>ord. customerId ord = customer_id ?c) (orders history_context))"
    by code_simp
  have e1: "map order_id (orders history_context) = [''o1'', ''o2'', ''o3'', ''o4'']"
    by code_simp
  have e2: "map order_id ?co = [''o4'', ''o2'']"
    by code_simp
  have e3: "map orderDate ?co = [''2024-01-10'', ''2024-01-05'']"
    by code_simp
  have e4: "items (?co ! 0) =
     [\<lparr>productName = ''Paneer'', price = 5804014019773727 / 562949953421312,
       quantity = 3 / 2\<rparr>]"
    by code_simp
  have e5: "toFixed sample_runtime (5804014019773727 / 562949953421312 * (3 / 2)) 2 = ''15.47''"
    by code_simp
  have len: "length ?co = 2"
    by code_simp
  have t0: "''Order on '' @
      format sample_runtime (the (parseISO sample_runtime (orderDate (?co ! 0)))) ''MMM dd, yyyy'' =
      ''Order on Jan 10, 2024''"
    by code_simp
  have s0: "status (?co ! 0) = ''delivered''"
    by code_simp
  have i0: "map (\<lambda>i. (Number_toString sample_runtime (quantity i) @ ''x '' @ productName i @
                     '' (@ '' @ rupee @ toFixed sample_runtime (price i) 2 @ '')'',
                   rupee @ toFixed sample_runtime (Number_multiply (price i) (quantity i)) 2))
          (items (?co ! 0)) =
      [(''1.5x Paneer (@ '' @ rupee @ ''10.31)'', rupee @ ''15.46'')]"
    by code_simp
  have o0: "''Order Total: '' @ rupee @ toFixed sample_runtime (totalAmount (?co ! 0)) 2 =
      ''Order Total: '' @ rupee @ ''15.46''"
    by code_simp
  have i1: "map (\<lambda>i. (Number_toString sample_runtime (quantity i) @ ''x '' @ productName i @
                     '' (@ '' @ rupee @ toFixed sample_runtime (price i) 2 @ '')'',
                   rupee @ toFixed sample_runtime (Number_multiply (price i) (quantity i)) 2))
          (items (?co ! 1)) =
      [(''1x Ghee (@ '' @ rupee @ ''40.00)'', rupee @ ''40.00''),
       (''3x Curd (@ '' @ rupee @ ''25.50)'', rupee @ ''76.50'')]"
    by code_simp
  have dd: "to_double 15 = 15"
    by code_simp
  note T = customer_history [of sample_runtime history_context ?c]
  have s: "sorted_wrt
     (\<lambda>a b. the (parseISO sample_runtime (orderDate b)) \<le>
        the (parseISO sample_runtime (orderDate a))) ?co"
    by (rule T [THEN conjunct2, THEN conjunct2, THEN conjunct1, THEN mp, OF h, THEN conjunct1])
  have n: "\<bar>Number_multiply (5804014019773727 / 562949953421312) (3 / 2) -
      5804014019773727 / 562949953421312 * (3 / 2)\<bar> \<le>
      \<bar>15 - 5804014019773727 / 562949953421312 * (3 / 2 :: rat)\<bar>"
    by (rule T [THEN conjunct2, THEN conjunct2, THEN conjunct2, rule_format, OF dd,
          THEN conjunct2])
  note V = T [THEN conjunct2, THEN conjunct2, THEN conjunct1, THEN mp, OF h, THEN conjunct2]
  from V obtain view where v: "order_history sample_runtime history_context ?c = Some view"
    and cs: "case view of
        NoOrders msg \<Rightarrow> ?co = [] \<and> msg = ''No orders placed by this customer yet.''
      | OrderHistory cards \<Rightarrow>
          ?co \<noteq> [] \<and>
          list_all2
            (\<lambda>ord oc.
               card_title oc =
                 ''Order on '' @
                 format sample_runtime (the (parseISO sample_runtime (orderDate ord)))
                   ''MMM dd, yyyy'' \<and>
               card_status oc = status ord \<and>
               card_items oc =
                 map (\<lambda>i. (Number_toString sample_runtime (quantity i) @ ''x '' @
                              productName i @ '' (@ '' @ rupee @
                              toFixed sample_runtime (price i) 2 @ '')'',
                            rupee @
                            toFixed sample_runtime (Number_multiply (price i) (quantity i)) 2))
                   (items ord) \<and>
               card_order_total oc =
                 ''Order Total: '' @ rupee @ toFixed sample_runtime (totalAmount ord) 2)
            ?co cards"
    by (elim exE conjE)
  have ne: "?co \<noteq> []"
    using len by auto
  from cs ne obtain cards where view: "view = OrderHistory cards"
    by (cases view) simp_all
  note L = cs [unfolded view history_view.case, THEN conjunct2]
  have lc: "length cards = 2"
    using list_all2_lengthD [OF L] len by simp
  have n0: "0 < length ?co" and n1: "1 < length ?co"
    using len by simp_all
  note L0 = list_all2_nthD [OF L n0, unfolded t0 s0 i0 o0]
  note L1 = list_all2_nthD [OF L n1, unfolded i1]
  have v': "order_history sample_runtime history_context ?c = Some (OrderHistory cards)"
    using v unfolding view .
  have c1: "card_title (cards ! 0) = ''Order on Jan 10, 2024''"
    using L0 by (rule conjunct1)
  have c2: "card_status (cards ! 0) = ''delivered''"
    using L0 [THEN conjunct2] by (rule conjunct1)
  have c3: "card_items (cards ! 0) =
      [(''1.5x Paneer (@ '' @ rupee @ ''10.31)'', rupee @ ''15.46'')]"
    using L0 [THEN conjunct2, THEN conjunct2] by (rule conjunct1)
  have c4: "card_order_total (cards ! 0) = ''Order Total: '' @ rupee @ ''15.46''"
    using L0 [THEN conjunct2, THEN conjunct2] by (rule conjunct2)
  have c5: "card_items (cards ! 1) =
      [(''1x Ghee (@ '' @ rupee @ ''40.00)'', rupee @ ''40.00''),
       (''3x Curd (@ '' @ rupee @ ''25.50)'', rupee @ ''76.50'')]"
    using L1 [THEN conjunct2, THEN conjunct2] by (rule conjunct1)
  have "order_history sample_runtime history_context ?c = Some (OrderHistory cards) \<and>
      length cards = 2 \<and>
      card_title (cards ! 0) = ''Order on Jan 10, 2024'' \<and>
      card_status (cards ! 0) = ''delivered'' \<and>
      card_items (cards ! 0) =
        [(''1.5x Paneer (@ '' @ rupee @ ''10.31)'', rupee @ ''15.46'')] \<and>
      card_order_total (cards ! 0) = ''Order Total: '' @ rupee @ ''15.46'' \<and>
      card_items (cards ! 1) =
        [(''1x Ghee (@ '' @ rupee @ ''40.00)'', rupee @ ''40.00''),
         (''3x Curd (@ '' @ rupee @ ''25.50)'', rupee @ ''76.50'')]"
    by (intro conjI v' lc c1 c2 c3 c4 c5)
  then have x: "\<exists>cards.
      order_history sample_runtime history_context ?c = Some (OrderHistory cards) \<and>
      length cards = 2 \<and>
      card_title (cards ! 0) = ''Order on Jan 10, 2024'' \<and>
      card_status (cards ! 0) = ''delivered'' \<and>
      card_items (cards ! 0) =
        [(''1.5x Paneer (@ '' @ rupee @ ''10.31)'', rupee @ ''15.46'')] \<and>
      card_order_total (cards ! 0) = ''Order Total: '' @ rupee @ ''15.46'' \<and>
      card_items (cards ! 1) =
        [(''1x Ghee (@ '' @ rupee @ ''40.00)'', rupee @ ''40.00''),
         (''3x Curd (@ '' @ rupee @ ''25.50)'', rupee @ ''76.50'')]"
    by (rule exI [of _ cards])
  show ?thesis
    by (intro conjI h e1 e2 e3 s e4 e5 x dd n)
qed

subsection \<open>Reading the CSV file back\<close>










subsection \<open>The CSV export\<close>




end
